theory Spec2Isabelle
  imports Complex_Main "HOL-Library.Word"
begin

unbundle bit_operations_syntax

section \<open>Values of the host language\<close>

text \<open>
  Bytes are the elements of a \<open>Uint8Array\<close>; a JavaScript string is a sequence of UTF-16
  code units. Every \<open>throw new Error(...)\<close> of the sources is a value of \<open>error\<close>;
  \<open>RangeError\<close> and \<open>TypeError\<close> are the two exceptions the platform itself raises
  in the modelled code paths.
\<close>

type_synonym byte = "8 word"
type_synonym jsstring = "16 word list"

datatype error =
    NegativeOffset | NaNOffset | SeekBeyondEnd
  | MeasureUnknownLength
  | OverwriteCrossesBlobBoundaries
  | RangeError | TypeError
  | BadWebP
  | MissingFrameTiming
  | BadTrackNumber
  | BadEbmlDatatype
  | BadVintSize | BadUintSize
  | StreamOverflow

text \<open>A number handed to \<open>seek\<close>: an integer or \<open>NaN\<close>. Comparisons with \<open>NaN\<close> are false.\<close>

datatype jsnum = Num int | NaN

fun js_less :: "jsnum \<Rightarrow> int \<Rightarrow> bool" where
  "js_less NaN k = False"
| "js_less (Num i) k = (i < k)"

fun js_greater :: "jsnum \<Rightarrow> int \<Rightarrow> bool" where
  "js_greater NaN k = False"
| "js_greater (Num i) k = (i > k)"

fun isNaN :: "jsnum \<Rightarrow> bool" where
  "isNaN NaN = True"
| "isNaN (Num i) = False"

text \<open>
  What \<open>new Blob([s])\<close> stores for a string: its UTF-8 encoding, a lone surrogate
  replaced by U+FFFD.
\<close>

function utf8 :: "jsstring \<Rightarrow> byte list" where
  "utf8 [] = []"
| "utf8 (c # cs) =
    (let u = unat c in
     if u < 0x80 then of_nat u # utf8 cs
     else if u < 0x800 then of_nat (0xC0 + u div 64) # of_nat (0x80 + u mod 64) # utf8 cs
     else if 0xD800 \<le> u \<and> u < 0xDC00 \<and> cs \<noteq> [] \<and> 0xDC00 \<le> unat (hd cs) \<and> unat (hd cs) < 0xE000 then
       (let cp = 0x10000 + (u - 0xD800) * 1024 + (unat (hd cs) - 0xDC00) in
        of_nat (0xF0 + cp div 262144) # of_nat (0x80 + cp div 4096 mod 64) #
        of_nat (0x80 + cp div 64 mod 64) # of_nat (0x80 + cp mod 64) # utf8 (tl cs))
     else if 0xD800 \<le> u \<and> u < 0xE000 then 0xEF # 0xBF # 0xBD # utf8 cs
     else of_nat (0xE0 + u div 4096) # of_nat (0x80 + u div 64 mod 64) #
          of_nat (0x80 + u mod 64) # utf8 cs)"
  by pat_completeness auto
termination
  by (relation "measure length") auto

text \<open>Overwriting \<open>ys\<close> into \<open>xs\<close> from index \<open>p\<close> on.\<close>

definition write_at :: "'a list \<Rightarrow> nat \<Rightarrow> 'a list \<Rightarrow> 'a list" where
  "write_at xs p ys = take p xs @ ys @ drop (p + length ys) xs"

section \<open>BlobBuffer (src/BlobBuffer.mjs), in-memory destination\<close>

text \<open>
  The sink keeps the objects it is given, by reference. Array buffers therefore live in a
  store, addressed by their index; a \<open>Uint8Array\<close> is a view (buffer, byte offset, length)
  and an \<open>ArrayBuffer\<close> is the buffer itself. Strings and Blobs are immutable values.
\<close>

type_synonym addr = nat
type_synonym store = "byte list list"

datatype datum =
    DString jsstring
  | DUint8Array addr nat nat
  | DArrayBuffer addr
  | DBlob "byte list"

text \<open>The properties \<open>byteLength\<close>, \<open>length\<close> and \<open>size\<close>; \<open>None\<close> is \<open>undefined\<close>.\<close>

fun byteLength :: "store \<Rightarrow> datum \<Rightarrow> nat option" where
  "byteLength st (DUint8Array a off n) = Some n"
| "byteLength st (DArrayBuffer a) = Some (length (st ! a))"
| "byteLength st (DString s) = None"
| "byteLength st (DBlob bs) = None"

fun length_prop :: "datum \<Rightarrow> nat option" where
  "length_prop (DString s) = Some (length s)"
| "length_prop (DUint8Array a off n) = Some n"
| "length_prop (DArrayBuffer a) = None"
| "length_prop (DBlob bs) = None"

fun size_prop :: "datum \<Rightarrow> nat option" where
  "size_prop (DBlob bs) = Some (length bs)"
| "size_prop (DString s) = None"
| "size_prop (DUint8Array a off n) = None"
| "size_prop (DArrayBuffer a) = None"

text \<open>\<open>a || b\<close>: \<open>a\<close> when it is truthy, otherwise \<open>b\<close>, whatever \<open>b\<close> is.\<close>

fun truthy :: "nat option \<Rightarrow> bool" where
  "truthy None = False"
| "truthy (Some n) = (n \<noteq> 0)"

definition js_or :: "nat option \<Rightarrow> nat option \<Rightarrow> nat option" where
  "js_or a b = (if truthy a then a else b)"

definition measureData :: "store \<Rightarrow> datum \<Rightarrow> error + nat" where
  "measureData st data =
    (let result = js_or (js_or (byteLength st data) (length_prop data)) (size_prop data) in
     case result of
       None \<Rightarrow> Inl MeasureUnknownLength
     | Some n \<Rightarrow> Inr n)"

text \<open>The bytes a datum contributes to \<open>new Blob([...])\<close>.\<close>

fun datum_bytes :: "store \<Rightarrow> datum \<Rightarrow> byte list" where
  "datum_bytes st (DString s) = utf8 s"
| "datum_bytes st (DUint8Array a off n) = take n (drop off (st ! a))"
| "datum_bytes st (DArrayBuffer a) = st ! a"
| "datum_bytes st (DBlob bs) = bs"

text \<open>
  \<open>convertToUint8Array\<close>: a \<open>Uint8Array\<close> is returned as it is, an \<open>ArrayBuffer\<close> gets a
  view over the same buffer, a Blob or a string is read into a new buffer.
\<close>

fun convertToUint8Array :: "datum \<Rightarrow> store \<Rightarrow> datum \<times> store" where
  "convertToUint8Array (DUint8Array a off n) st = (DUint8Array a off n, st)"
| "convertToUint8Array (DArrayBuffer a) st = (DUint8Array a 0 (length (st ! a)), st)"
| "convertToUint8Array (DBlob bs) st = (DUint8Array (length st) 0 (length bs), st @ [bs])"
| "convertToUint8Array (DString s) st =
     (DUint8Array (length st) 0 (length (utf8 s)), st @ [utf8 s])"

text \<open>\<open>target.set(source, rel)\<close> on typed arrays; the platform raises \<open>RangeError\<close> when
  the source does not fit.\<close>

fun u8_set :: "datum \<Rightarrow> byte list \<Rightarrow> nat \<Rightarrow> store \<Rightarrow> error + store" where
  "u8_set (DUint8Array a off n) src rel st =
     (if rel + length src > n then Inl RangeError
      else Inr (st[a := write_at (st ! a) (off + rel) src]))"
| "u8_set (DArrayBuffer a) src rel st = Inl TypeError"
| "u8_set (DBlob bs) src rel st = Inl TypeError"
| "u8_set (DString s) src rel st = Inl TypeError"

record entry =
  e_offset :: nat
  e_data :: datum
  e_length :: nat

record BlobBuffer =
  bb_buffer :: "entry list"
  bb_pos :: nat
  bb_length :: nat

definition new_BlobBuffer :: BlobBuffer where
  "new_BlobBuffer = \<lparr>bb_buffer = [], bb_pos = 0, bb_length = 0\<rparr>"

text \<open>\<open>seek\<close> returns the exception it throws, if any, with the state it leaves.\<close>

definition bb_seek :: "jsnum \<Rightarrow> BlobBuffer \<Rightarrow> error option \<times> BlobBuffer" where
  "bb_seek offset b =
    (if js_less offset 0 then (Some NegativeOffset, b)
     else if isNaN offset then (Some NaNOffset, b)
     else if js_greater offset (int (bb_length b)) then (Some SeekBeyondEnd, b)
     else (None, b\<lparr>bb_pos := (case offset of Num i \<Rightarrow> nat i | NaN \<Rightarrow> 0)\<rparr>))"

text \<open>
  The loop of \<open>write\<close> over the buffered entries. \<open>Inr None\<close>: no entry overlapped and the
  caller appends; \<open>Inr (Some _)\<close>: the entry was replaced or spliced; \<open>Inl\<close>: thrown.
\<close>

fun overwrite :: "entry \<Rightarrow> store \<Rightarrow> entry list \<Rightarrow> error + (store \<times> entry list) option" where
  "overwrite newEntry st [] = Inr None"
| "overwrite newEntry st (entry # rest) =
    (if e_offset newEntry + e_length newEntry \<le> e_offset entry \<or>
        e_offset newEntry \<ge> e_offset entry + e_length entry
     then (case overwrite newEntry st rest of
             Inl e \<Rightarrow> Inl e
           | Inr None \<Rightarrow> Inr None
           | Inr (Some (st', rest')) \<Rightarrow> Inr (Some (st', entry # rest')))
     else if e_offset newEntry < e_offset entry \<or>
        e_offset newEntry + e_length newEntry > e_offset entry + e_length entry
     then Inl OverwriteCrossesBlobBoundaries
     else if e_offset newEntry = e_offset entry \<and> e_length newEntry = e_length entry
     then Inr (Some (st, entry\<lparr>e_data := e_data newEntry\<rparr> # rest))
     else
       (case convertToUint8Array (e_data entry) st of (entryArray, st1) \<Rightarrow>
        case convertToUint8Array (e_data newEntry) st1 of (newEntryArray, st2) \<Rightarrow>
        case u8_set entryArray (datum_bytes st2 newEntryArray)
               (e_offset newEntry - e_offset entry) st2 of
          Inl e \<Rightarrow> Inl e
        | Inr st3 \<Rightarrow> Inr (Some (st3, entry\<lparr>e_data := entryArray\<rparr> # rest))))"

definition bb_write :: "datum \<Rightarrow> store \<times> BlobBuffer \<Rightarrow> error + (store \<times> BlobBuffer)" where
  "bb_write data sb =
    (case sb of (st, b) \<Rightarrow>
     case measureData st data of
       Inl e \<Rightarrow> Inl e
     | Inr len \<Rightarrow>
        (let newEntry = \<lparr>e_offset = bb_pos b, e_data = data, e_length = len\<rparr>;
             isAppend = (e_offset newEntry \<ge> bb_length b);
             b1 = b\<lparr>bb_pos := bb_pos b + e_length newEntry\<rparr>;
             b2 = b1\<lparr>bb_length := max (bb_length b1) (bb_pos b1)\<rparr>
         in if \<not> isAppend then
              (case overwrite newEntry st (bb_buffer b2) of
                 Inl e \<Rightarrow> Inl e
               | Inr (Some (st', buf')) \<Rightarrow> Inr (st', b2\<lparr>bb_buffer := buf'\<rparr>)
               | Inr None \<Rightarrow> Inr (st, b2\<lparr>bb_buffer := bb_buffer b2 @ [newEntry]\<rparr>))
            else Inr (st, b2\<lparr>bb_buffer := bb_buffer b2 @ [newEntry]\<rparr>)))"

text \<open>\<open>complete\<close>: the Blob built from the data of the entries, in buffer order.\<close>

definition bb_complete :: "string \<Rightarrow> store \<times> BlobBuffer \<Rightarrow> byte list \<times> string" where
  "bb_complete mimeType sb =
    (case sb of (st, b) \<Rightarrow> (concat (map (\<lambda>e. datum_bytes st (e_data e)) (bb_buffer b)), mimeType))"

subsection \<open>Notions used to state the properties of the sink\<close>


fun data_addr :: "datum \<Rightarrow> addr option" where
  "data_addr (DUint8Array a off n) = Some a"
| "data_addr (DArrayBuffer a) = Some a"
| "data_addr (DString s) = None"
| "data_addr (DBlob bs) = None"

fun datum_ok :: "store \<Rightarrow> datum \<Rightarrow> bool" where
  "datum_ok st (DUint8Array a off n) = (a < length st \<and> off + n \<le> length (st ! a))"
| "datum_ok st (DArrayBuffer a) = (a < length st)"
| "datum_ok st (DString s) = (length (utf8 s) = length s)"
| "datum_ok st (DBlob bs) = True"

definition chunk_ok :: "store \<Rightarrow> entry \<Rightarrow> bool" where
  "chunk_ok st e \<longleftrightarrow> datum_ok st (e_data e) \<and> length (datum_bytes st (e_data e)) = e_length e"

text \<open>
  \<open>laid c es l\<close>: the entries of non-zero length, in the order of the list, cover the
  offsets from \<open>c\<close> to \<open>l\<close> without gap or overlap. \<open>fits off len e\<close>: the range of
  \<open>len\<close> bytes from \<open>off\<close> lies in the entry. \<open>cuts p e\<close>: the offset is in the entry
  and not at its start. \<open>sink_ok\<close> is what holds of a sink that was only given such data:
  every entry is a \<open>chunk_ok\<close> one below \<open>length\<close>, the entries are laid out from 0 to
  \<open>length\<close>, an entry of length zero cuts no entry, and \<open>pos\<close> is at most
  \<open>length\<close>. \<open>separate\<close>: no two entries hold arrays over the same buffer.
\<close>

fun laid :: "nat \<Rightarrow> entry list \<Rightarrow> nat \<Rightarrow> bool" where
  "laid c [] l = (c = l)"
| "laid c (e # es) l =
     (if e_length e = 0 then laid c es l
      else e_offset e = c \<and> laid (c + e_length e) es l)"


definition cuts :: "nat \<Rightarrow> entry \<Rightarrow> bool" where
  "cuts p e \<longleftrightarrow> e_offset e < p \<and> p < e_offset e + e_length e"

definition sink_ok :: "store \<times> BlobBuffer \<Rightarrow> bool" where
  "sink_ok sb \<longleftrightarrow>
     (case sb of (st, b) \<Rightarrow>
        (\<forall>e\<in>set (bb_buffer b).
            chunk_ok st e \<and> e_offset e + e_length e \<le> bb_length b \<and>
            (e_length e = 0 \<longrightarrow> (\<forall>c\<in>set (bb_buffer b). \<not> cuts (e_offset e) c))) \<and>
        laid 0 (bb_buffer b) (bb_length b) \<and> bb_pos b \<le> bb_length b)"

definition separate :: "store \<times> BlobBuffer \<Rightarrow> bool" where
  "separate sb \<longleftrightarrow>
     (\<forall>i<length (bb_buffer (snd sb)). \<forall>j<length (bb_buffer (snd sb)).
        i \<noteq> j \<longrightarrow> data_addr (e_data (bb_buffer (snd sb) ! i)) = None \<or>
                 data_addr (e_data (bb_buffer (snd sb) ! i)) \<noteq>
                 data_addr (e_data (bb_buffer (snd sb) ! j)))"








text \<open>
  \<open>tracks st0 used sb\<close> relates a sink to the store \<open>st0\<close> it started from: the sink is
  \<open>sink_ok\<close> and \<open>separate\<close>, the buffers of \<open>st0\<close> are still there with their lengths,
  those not among \<open>used\<close> with their content, and an entry that holds an array over a
  buffer of \<open>st0\<close> holds one over a buffer among \<open>used\<close>.
\<close>

definition tracks :: "store \<Rightarrow> addr list \<Rightarrow> store \<times> BlobBuffer \<Rightarrow> bool" where
  "tracks st0 used sb \<longleftrightarrow>
     sink_ok sb \<and> separate sb \<and> length st0 \<le> length (fst sb) \<and>
     (\<forall>a<length st0. length (fst sb ! a) = length (st0 ! a) \<and>
                      (a \<notin> set used \<longrightarrow> fst sb ! a = st0 ! a)) \<and>
     (\<forall>e\<in>set (bb_buffer (snd sb)).
        case data_addr (e_data e) of
          None \<Rightarrow> True
        | Some a \<Rightarrow> a < length st0 \<longrightarrow> a \<in> set used)"

section \<open>WebP keyframe extraction (src/utils.mjs)\<close>

text \<open>A string literal of the source, as code units.\<close>

definition js :: "string \<Rightarrow> jsstring" where
  "js s = map (\<lambda>c. of_nat (of_char c)) s"

text \<open>
  \<open>s.indexOf(pat, fromIndex)\<close>: the first index at or after \<open>fromIndex\<close> where
  \<open>pat\<close> occurs, or \<open>-1\<close>.
\<close>

fun find_sub :: "'a list \<Rightarrow> 'a list \<Rightarrow> nat \<Rightarrow> nat option" where
  "find_sub pat [] i = (if pat = [] then Some i else None)"
| "find_sub pat (x # xs) i =
     (if take (length pat) (x # xs) = pat then Some i else find_sub pat xs (Suc i))"

definition indexOf :: "jsstring \<Rightarrow> jsstring \<Rightarrow> nat \<Rightarrow> int" where
  "indexOf s pat fromIndex =
     (case find_sub pat (drop fromIndex s) (min fromIndex (length s)) of
        None \<Rightarrow> - 1
      | Some i \<Rightarrow> int i)"

text \<open>\<open>s.substring(a, b)\<close> for \<open>a \<le> b\<close>; both ends are clamped to the string.\<close>

definition substring :: "jsstring \<Rightarrow> nat \<Rightarrow> nat \<Rightarrow> jsstring" where
  "substring s a b = take (b - a) (drop a s)"

text \<open>
  \<open>charCodeAt\<close> as an operand of the 32-bit operators \<open>|\<close> and \<open><<\<close>: the code unit,
  or \<open>0\<close> for the \<open>NaN\<close> of an index outside the string.
\<close>

definition charCodeAt :: "jsstring \<Rightarrow> nat \<Rightarrow> 32 word" where
  "charCodeAt s i = (if i < length s then ucast (s ! i) else 0)"

definition byteStringToUint32LE :: "jsstring \<Rightarrow> nat" where
  "byteStringToUint32LE string =
     (let a = charCodeAt string 0;
          b = charCodeAt string 1;
          c = charCodeAt string 2;
          d = charCodeAt string 3
      in unat (a OR push_bit 8 b OR push_bit 16 c OR push_bit 24 d))"

record keyframe =
  k_frame :: jsstring
  k_hasAlpha :: bool

text \<open>The \<open>while\<close> loop of \<open>extractKeyframeFromWebP\<close>.\<close>

function scan_chunks :: "jsstring \<Rightarrow> nat \<Rightarrow> bool \<Rightarrow> error + keyframe" where
  "scan_chunks webP cursor hasAlpha =
    (if int cursor < int (length webP) - 8 then
       (let fourCC = substring webP cursor (cursor + 4);
            cursor1 = cursor + 4;
            chunkLength = byteStringToUint32LE (substring webP cursor1 (cursor1 + 4));
            cursor2 = cursor1 + 4
        in if fourCC = js ''VP8 '' then
             Inr \<lparr>k_frame = substring webP cursor2 (cursor2 + chunkLength), k_hasAlpha = hasAlpha\<rparr>
           else
             (let hasAlpha' = (if fourCC = js ''ALPH'' then True else hasAlpha);
                  cursor3 = cursor2 + chunkLength;
                  cursor4 = (if chunkLength mod 2 \<noteq> 0 then cursor3 + 1 else cursor3)
              in scan_chunks webP cursor4 hasAlpha'))
     else Inl BadWebP)"
  by pat_completeness auto
termination
  by (relation "measure (\<lambda>(webP, cursor, hasAlpha). length webP - cursor)") auto

declare scan_chunks.simps [simp del]

definition extractKeyframeFromWebP :: "jsstring \<Rightarrow> error + keyframe" where
  "extractKeyframeFromWebP webP =
    (let cursor = indexOf webP (js ''VP8'') 12 in
     if cursor = - 1 then Inl BadWebP
     else scan_chunks webP (nat cursor) False)"

subsection \<open>The chunk scan as the specification words it\<close>

text \<open>
  A RIFF chunk header is a four-byte FourCC followed by a four-byte little-endian length.
  \<open>riff_chunks w c\<close> lists the chunks whose headers lie before the end of \<open>w\<close>, walking
  from offset \<open>c\<close> and skipping each payload and the padding byte of an odd length; an
  entry is (FourCC, length, offset of the payload). \<open>chunk_scan\<close> returns the payload of
  the first \<open>"VP8 "\<close> chunk of that list, and whether an \<open>"ALPH"\<close> chunk precedes it.
\<close>

definition le_u32 :: "jsstring \<Rightarrow> nat" where
  "le_u32 s = unat (s ! 0) + 256 * unat (s ! 1) + 65536 * unat (s ! 2) + 16777216 * unat (s ! 3)"

function riff_chunks :: "jsstring \<Rightarrow> nat \<Rightarrow> (jsstring \<times> nat \<times> nat) list" where
  "riff_chunks w c =
     (if c + 8 < length w then
        (let len = le_u32 (take 4 (drop (c + 4) w)) in
         (take 4 (drop c w), len, c + 8) # riff_chunks w (c + 8 + len + len mod 2))
      else [])"
  by pat_completeness auto
termination
  by (relation "measure (\<lambda>(w, c). length w - c)") auto

declare riff_chunks.simps [simp del]

definition first_vp8 :: "jsstring \<Rightarrow> (jsstring \<times> nat \<times> nat) list \<Rightarrow> error + keyframe" where
  "first_vp8 w cs =
     (case dropWhile (\<lambda>(cc, len, p). cc \<noteq> js ''VP8 '') cs of
        [] \<Rightarrow> Inl BadWebP
      | (cc, len, p) # _ \<Rightarrow>
          Inr \<lparr>k_frame = take len (drop p w),
               k_hasAlpha = (js ''ALPH'' \<in> fst ` set (takeWhile (\<lambda>(cc, len, p). cc \<noteq> js ''VP8 '') cs))\<rparr>)"

definition chunk_scan :: "jsstring \<Rightarrow> nat \<Rightarrow> error + keyframe" where
  "chunk_scan w start = first_vp8 w (riff_chunks w start)"

section \<open>The byte stream writer\<close>

text \<open>
  Modelled from the spec: \<open>ArrayBufferDataStream\<close> (src/ArrayBufferDataStream.mjs is not
  among the sources; its tests are). A fixed-capacity byte array with a cursor; every
  write advances the cursor. The specification keeps \<open>0 \<le> pos \<le> capacity\<close> and does not
  resize, so a write that would pass the capacity is an error here. Numbers are naturals.
\<close>

record stream =
  ds_data :: "byte list"
  ds_pos :: nat

definition new_stream :: "nat \<Rightarrow> stream" where
  "new_stream capacity = \<lparr>ds_data = replicate capacity 0, ds_pos = 0\<rparr>"

definition writeBytes :: "byte list \<Rightarrow> stream \<Rightarrow> error + stream" where
  "writeBytes bs s =
     (if ds_pos s + length bs \<le> length (ds_data s)
      then Inr \<lparr>ds_data = write_at (ds_data s) (ds_pos s) bs, ds_pos = ds_pos s + length bs\<rparr>
      else Inl StreamOverflow)"

definition writeByte :: "byte \<Rightarrow> stream \<Rightarrow> error + stream" where
  "writeByte b s = writeBytes [b] s"

definition writeString :: "jsstring \<Rightarrow> stream \<Rightarrow> error + stream" where
  "writeString str s = writeBytes (utf8 str) s"

text \<open>\<open>n\<close> big-endian in \<open>width\<close> bytes.\<close>

definition uint_be_bytes :: "nat \<Rightarrow> nat \<Rightarrow> byte list" where
  "uint_be_bytes n width = map (\<lambda>i. of_nat (n div 256 ^ (width - 1 - i))) [0..<width]"

definition measureUnsignedInt :: "nat \<Rightarrow> nat" where
  "measureUnsignedInt n =
     (if n < 2 ^ 8 then 1 else if n < 2 ^ 16 then 2 else if n < 2 ^ 24 then 3
      else if n < 2 ^ 32 then 4 else 5)"

definition writeUnsignedIntBE :: "nat \<Rightarrow> nat option \<Rightarrow> stream \<Rightarrow> error + stream" where
  "writeUnsignedIntBE n width s =
     (case width of
        None \<Rightarrow> writeBytes (uint_be_bytes n (measureUnsignedInt n)) s
      | Some w \<Rightarrow> writeBytes (uint_be_bytes n w) s)"

definition writeU16BE :: "nat \<Rightarrow> stream \<Rightarrow> error + stream" where
  "writeU16BE n s = writeBytes (uint_be_bytes n 2) s"

text \<open>A float is its IEEE-754 bit pattern; it is written big-endian.\<close>

definition writeDoubleBE :: "64 word \<Rightarrow> stream \<Rightarrow> error + stream" where
  "writeDoubleBE d s = writeBytes (uint_be_bytes (unat d) 8) s"

definition writeFloatBE :: "32 word \<Rightarrow> stream \<Rightarrow> error + stream" where
  "writeFloatBE d s = writeBytes (uint_be_bytes (unat d) 4) s"

text \<open>
  The EBML variable-width integer: the smallest width \<open>w\<close> in \<open>1..8\<close> with
  \<open>n < 2^(7w) - 1\<close>; the marker bit at bit \<open>7w\<close>, and \<open>n\<close> in the \<open>7w\<close> bits below it.
\<close>

definition ebml_varint_bytes :: "nat \<Rightarrow> nat \<Rightarrow> byte list" where
  "ebml_varint_bytes n w = uint_be_bytes (2 ^ (7 * w) + n mod 2 ^ (7 * w)) w"

definition measureEBMLVarInt :: "nat \<Rightarrow> nat option" where
  "measureEBMLVarInt n = find (\<lambda>w. n + 1 < 2 ^ (7 * w)) [1, 2, 3, 4, 5, 6, 7, 8]"

definition writeEBMLVarIntWidth :: "nat \<Rightarrow> nat \<Rightarrow> stream \<Rightarrow> error + stream" where
  "writeEBMLVarIntWidth n w s = writeBytes (ebml_varint_bytes n w) s"

definition writeEBMLVarInt :: "nat \<Rightarrow> stream \<Rightarrow> error + stream" where
  "writeEBMLVarInt n s =
     (case measureEBMLVarInt n of
        None \<Rightarrow> Inl BadVintSize
      | Some w \<Rightarrow> writeEBMLVarIntWidth n w s)"

definition ds_seek :: "nat \<Rightarrow> stream \<Rightarrow> error + stream" where
  "ds_seek p s = (if p \<le> length (ds_data s) then Inr (s\<lparr>ds_pos := p\<rparr>) else Inl SeekBeyondEnd)"

definition getAsDataArray :: "stream \<Rightarrow> byte list" where
  "getAsDataArray s = take (ds_pos s) (ds_data s)"

text \<open>Reading a fixed-width EBML integer back: the marker bit is dropped.\<close>

definition be_value :: "byte list \<Rightarrow> nat" where
  "be_value bs = foldl (\<lambda>acc b. acc * 256 + unat b) 0 bs"

definition decode_varint :: "nat \<Rightarrow> byte list \<Rightarrow> nat option" where
  "decode_varint w bs =
     (if length bs = w \<and> be_value bs div 2 ^ (7 * w) = 1
      then Some (be_value bs mod 2 ^ (7 * w)) else None)"

section \<open>The EBML serializer (src/utils.mjs)\<close>

text \<open>
  An EBML node is an array of nodes, a string, a \<open>Uint8Array\<close>, or an element object with
  an \<open>id\<close>; anything else is \<open>EOther\<close>. An element's \<open>size\<close> is unset, a number, or one of
  the sentinels \<open>EBML_SIZE_UNKNOWN\<close> and \<open>EBML_SIZE_UNKNOWN_5_BYTES\<close>; \<open>offset\<close> and
  \<open>dataOffset\<close> are unset until the writer fills them in. The writer mutates the node it
  is given; here it returns the node as it leaves it.
\<close>

datatype ebml_size = SizeUnset | SizeNum nat | EBML_SIZE_UNKNOWN | EBML_SIZE_UNKNOWN_5_BYTES

datatype ebml =
    EArray "ebml list"
  | EString jsstring
  | EBytes "byte list"
  | Element (el_id: nat) (el_size: ebml_size) (el_data: ebml_data)
            (el_offset: "nat option") (el_dataOffset: "nat option")
  | EOther
and ebml_data =
    DArray "ebml list"
  | DString' jsstring
  | DNumber nat
  | DFloat64 "64 word"
  | DFloat32 "32 word"
  | DBytes "byte list"
  | DOther

text \<open>\<open>!ebml.size\<close>\<close>

fun size_falsy :: "ebml_size \<Rightarrow> bool" where
  "size_falsy SizeUnset = True"
| "size_falsy (SizeNum n) = (n = 0)"
| "size_falsy EBML_SIZE_UNKNOWN = False"
| "size_falsy EBML_SIZE_UNKNOWN_5_BYTES = False"

fun writeEBML :: "stream \<Rightarrow> nat \<Rightarrow> ebml \<Rightarrow> error + (stream \<times> ebml)"
  and writeEBML_array :: "stream \<Rightarrow> nat \<Rightarrow> ebml list \<Rightarrow> error + (stream \<times> ebml list)"
where
  "writeEBML buffer bufferFileOffset (EArray xs) =
     (case writeEBML_array buffer bufferFileOffset xs of
        Inl e \<Rightarrow> Inl e
      | Inr (b, xs') \<Rightarrow> Inr (b, EArray xs'))"
| "writeEBML buffer bufferFileOffset (EString s) =
     (case writeString s buffer of Inl e \<Rightarrow> Inl e | Inr b \<Rightarrow> Inr (b, EString s))"
| "writeEBML buffer bufferFileOffset (EBytes bs) =
     (case writeBytes bs buffer of Inl e \<Rightarrow> Inl e | Inr b \<Rightarrow> Inr (b, EBytes bs))"
| "writeEBML buffer bufferFileOffset EOther = Inl BadEbmlDatatype"
| "writeEBML buffer bufferFileOffset (Element eid esize dat off doff) =
     (if eid = 0 then Inl BadEbmlDatatype
      else
       (let offset = ds_pos buffer + bufferFileOffset in
        case writeUnsignedIntBE eid None buffer of
          Inl e \<Rightarrow> Inl e
        | Inr b1 \<Rightarrow>
           (case dat of
              DArray children \<Rightarrow>
                (case (if esize = EBML_SIZE_UNKNOWN then writeByte 0xFF b1
                       else if esize = EBML_SIZE_UNKNOWN_5_BYTES
                       then writeBytes [0x0F, 0xFF, 0xFF, 0xFF, 0xFF] b1
                       else writeBytes [0, 0, 0, 0] b1) of
                   Inl e \<Rightarrow> Inl e
                 | Inr b2 \<Rightarrow>
                    (let sizePos = ds_pos b1; dataBegin = ds_pos b2 in
                     case writeEBML_array b2 bufferFileOffset children of
                       Inl e \<Rightarrow> Inl e
                     | Inr (b3, children') \<Rightarrow>
                        (if esize \<noteq> EBML_SIZE_UNKNOWN \<and> esize \<noteq> EBML_SIZE_UNKNOWN_5_BYTES then
                           (let dataEnd = ds_pos b3; esize' = dataEnd - dataBegin in
                            case ds_seek sizePos b3 of
                              Inl e \<Rightarrow> Inl e
                            | Inr b4 \<Rightarrow>
                               (case writeEBMLVarIntWidth esize' 4 b4 of
                                  Inl e \<Rightarrow> Inl e
                                | Inr b5 \<Rightarrow>
                                   (case ds_seek dataEnd b5 of
                                      Inl e \<Rightarrow> Inl e
                                    | Inr b6 \<Rightarrow>
                                       Inr (b6, Element eid (SizeNum esize') (DArray children')
                                                  (Some offset) (Some (dataBegin + bufferFileOffset))))))
                         else Inr (b3, Element eid esize (DArray children')
                                         (Some offset) (Some (dataBegin + bufferFileOffset))))))
            | DString' s \<Rightarrow>
                (case writeEBMLVarInt (length s) b1 of
                   Inl e \<Rightarrow> Inl e
                 | Inr b2 \<Rightarrow>
                    (case writeString s b2 of
                       Inl e \<Rightarrow> Inl e
                     | Inr b3 \<Rightarrow> Inr (b3, Element eid esize dat (Some offset)
                                              (Some (ds_pos b2 + bufferFileOffset)))))
            | DNumber n \<Rightarrow>
                (let esize' = (if size_falsy esize then SizeNum (measureUnsignedInt n) else esize) in
                 case esize' of
                   SizeNum w \<Rightarrow>
                     (case writeEBMLVarInt w b1 of
                        Inl e \<Rightarrow> Inl e
                      | Inr b2 \<Rightarrow>
                         (case writeUnsignedIntBE n (Some w) b2 of
                            Inl e \<Rightarrow> Inl e
                          | Inr b3 \<Rightarrow> Inr (b3, Element eid esize' dat (Some offset)
                                                   (Some (ds_pos b2 + bufferFileOffset)))))
                 | _ \<Rightarrow> Inl BadVintSize)
            | DFloat64 v \<Rightarrow>
                (case writeEBMLVarInt 8 b1 of
                   Inl e \<Rightarrow> Inl e
                 | Inr b2 \<Rightarrow>
                    (case writeDoubleBE v b2 of
                       Inl e \<Rightarrow> Inl e
                     | Inr b3 \<Rightarrow> Inr (b3, Element eid esize dat (Some offset)
                                              (Some (ds_pos b2 + bufferFileOffset)))))
            | DFloat32 v \<Rightarrow>
                (case writeEBMLVarInt 4 b1 of
                   Inl e \<Rightarrow> Inl e
                 | Inr b2 \<Rightarrow>
                    (case writeFloatBE v b2 of
                       Inl e \<Rightarrow> Inl e
                     | Inr b3 \<Rightarrow> Inr (b3, Element eid esize dat (Some offset)
                                              (Some (ds_pos b2 + bufferFileOffset)))))
            | DBytes bs \<Rightarrow>
                (case writeEBMLVarInt (length bs) b1 of
                   Inl e \<Rightarrow> Inl e
                 | Inr b2 \<Rightarrow>
                    (case writeBytes bs b2 of
                       Inl e \<Rightarrow> Inl e
                     | Inr b3 \<Rightarrow> Inr (b3, Element eid esize dat (Some offset)
                                              (Some (ds_pos b2 + bufferFileOffset)))))
            | DOther \<Rightarrow> Inl BadEbmlDatatype)))"
| "writeEBML_array buffer bufferFileOffset [] = Inr (buffer, [])"
| "writeEBML_array buffer bufferFileOffset (x # xs) =
     (case writeEBML buffer bufferFileOffset x of
        Inl e \<Rightarrow> Inl e
      | Inr (b, x') \<Rightarrow>
         (case writeEBML_array b bufferFileOffset xs of
            Inl e \<Rightarrow> Inl e
          | Inr (b', xs') \<Rightarrow> Inr (b', x' # xs')))"

subsection \<open>Notions used to state what the serializer writes\<close>

text \<open>
  \<open>extends b b'\<close>: the stream \<open>b'\<close> has the capacity of \<open>b\<close>, its cursor is not before
  that of \<open>b\<close>, and it agrees with \<open>b\<close> on everything before the cursor of \<open>b\<close>.
  \<open>size_placeholder\<close> is the size field an element with children gets before its
  children are written; \<open>after_header\<close> is the stream once the id and that placeholder
  are written. \<open>size_field_value\<close> and \<open>payload_bytes\<close> are the size and the payload
  of an element that has no children.
\<close>

definition extends :: "stream \<Rightarrow> stream \<Rightarrow> bool" where
  "extends b b' \<longleftrightarrow>
     ds_pos b \<le> ds_pos b' \<and>
     length (ds_data b') = length (ds_data b) \<and>
     take (ds_pos b) (ds_data b') = take (ds_pos b) (ds_data b)"

fun size_placeholder :: "ebml_size \<Rightarrow> byte list" where
  "size_placeholder EBML_SIZE_UNKNOWN = [0xFF]"
| "size_placeholder EBML_SIZE_UNKNOWN_5_BYTES = [0x0F, 0xFF, 0xFF, 0xFF, 0xFF]"
| "size_placeholder SizeUnset = [0, 0, 0, 0]"
| "size_placeholder (SizeNum n) = [0, 0, 0, 0]"

definition after_header :: "stream \<Rightarrow> nat \<Rightarrow> ebml_size \<Rightarrow> stream" where
  "after_header buffer eid esize =
     (let p = ds_pos buffer;
          idb = uint_be_bytes eid (measureUnsignedInt eid);
          ph = size_placeholder esize
      in \<lparr>ds_data = write_at (write_at (ds_data buffer) p idb) (p + length idb) ph,
          ds_pos = p + length idb + length ph\<rparr>)"

fun payload_bytes :: "ebml_size \<Rightarrow> ebml_data \<Rightarrow> byte list" where
  "payload_bytes esize (DString' s) = utf8 s"
| "payload_bytes esize (DNumber n) =
     (case esize of
        SizeNum w \<Rightarrow> uint_be_bytes n (if w = 0 then measureUnsignedInt n else w)
      | _ \<Rightarrow> uint_be_bytes n (measureUnsignedInt n))"
| "payload_bytes esize (DFloat64 v) = uint_be_bytes (unat v) 8"
| "payload_bytes esize (DFloat32 v) = uint_be_bytes (unat v) 4"
| "payload_bytes esize (DBytes bs) = bs"
| "payload_bytes esize (DArray xs) = []"
| "payload_bytes esize DOther = []"

fun size_field_value :: "ebml_size \<Rightarrow> ebml_data \<Rightarrow> nat" where
  "size_field_value esize (DString' s) = length s"
| "size_field_value esize (DNumber n) =
     (case esize of
        SizeNum w \<Rightarrow> (if w = 0 then measureUnsignedInt n else w)
      | _ \<Rightarrow> measureUnsignedInt n)"
| "size_field_value esize (DFloat64 v) = 8"
| "size_field_value esize (DFloat32 v) = 4"
| "size_field_value esize (DBytes bs) = length bs"
| "size_field_value esize (DArray xs) = 0"
| "size_field_value esize DOther = 0"

section \<open>The muxer (\<open>WebMWriter\<close>)\<close>

text \<open>
  The muxer is a closure over its options and a dozen variables; \<open>muxer\<close> is the record
  of those variables, and every operation takes the record and returns it updated, or the
  error it throws. Only the in-memory destination is covered: the options \<open>fileWriter\<close>
  and \<open>fd\<close> are absent. Element payloads are naturals. The host's renderer is outside the
  model: an image comes with the WebP byte strings the renderer returns for it.

  JavaScript numbers are IEEE-754 doubles. A duration or a time is the rational its double
  denotes. The sum of two doubles is rounded to a double, so \<open>a += b\<close> is not the sum of
  the rationals: the addition of doubles is a parameter, \<open>add\<close>, of the operations that
  accumulate durations (\<open>clusterDuration += frame.duration\<close> and
  \<open>clusterStartTime += clusterDuration\<close>). Comparing two doubles is comparing the rationals.
  The quotient \<open>1000 / frameRate\<close> of \<open>validateOptions\<close> is the exact one.
\<close>

fun and_then :: "error + 'a \<Rightarrow> ('a \<Rightarrow> error + 'b) \<Rightarrow> error + 'b" where
  "and_then (Inl e) f = Inl e"
| "and_then (Inr x) f = f x"

text \<open>
  \<open>Math.round\<close>, as a natural, for the times it is applied to, which are not negative
  unless a frame duration is negative. A negative time, which \<open>Math.round\<close> takes to a
  negative integer, has no place in the unsigned fields the result is written to, and is
  taken to \<open>0\<close> here.
\<close>

definition js_round :: "rat \<Rightarrow> nat" where
  "js_round x = nat \<lfloor>x + 1 / 2\<rfloor>"

record options =
  quality :: rat
  transparent :: bool
  alphaQuality :: "rat option"
  frameDuration :: "rat option"
  frameRate :: "rat option"

text \<open>The options object handed to the constructor: each property is present or not.\<close>

record user_options =
  u_quality :: "rat option"
  u_transparent :: "bool option"
  u_alphaQuality :: "rat option"
  u_frameDuration :: "rat option"
  u_frameRate :: "rat option"

definition optionDefaults :: options where
  "optionDefaults = \<lparr>quality = 95 / 100, transparent = False, alphaQuality = None,
                      frameDuration = None, frameRate = None\<rparr>"

definition extend_opts :: "options \<Rightarrow> user_options \<Rightarrow> options" where
  "extend_opts base top' =
     \<lparr>quality = (case u_quality top' of Some q \<Rightarrow> q | None \<Rightarrow> quality base),
      transparent = (case u_transparent top' of Some t \<Rightarrow> t | None \<Rightarrow> transparent base),
      alphaQuality = (case u_alphaQuality top' of Some q \<Rightarrow> Some q | None \<Rightarrow> alphaQuality base),
      frameDuration = (case u_frameDuration top' of Some d \<Rightarrow> Some d | None \<Rightarrow> frameDuration base),
      frameRate = (case u_frameRate top' of Some r \<Rightarrow> Some r | None \<Rightarrow> frameRate base)\<rparr>"

text \<open>Truthiness of a number that may be \<open>null\<close>.\<close>

fun num_truthy :: "rat option \<Rightarrow> bool" where
  "num_truthy None = False"
| "num_truthy (Some x) = (x \<noteq> 0)"

definition validateOptions :: "options \<Rightarrow> error + options" where
  "validateOptions opts =
     and_then
       (if \<not> num_truthy (frameDuration opts) then
          (if num_truthy (frameRate opts)
           then Inr (opts\<lparr>frameDuration := Some (1000 / the (frameRate opts))\<rparr>)
           else Inl MissingFrameTiming)
        else Inr opts)
       (\<lambda>opts1.
          let opts2 = opts1\<lparr>quality := max (min (quality opts1) (99999 / 100000)) 0\<rparr> in
          Inr (case alphaQuality opts2 of
                 None \<Rightarrow> opts2\<lparr>alphaQuality := Some (quality opts2)\<rparr>
               | Some a \<Rightarrow> opts2\<lparr>alphaQuality := Some (max (min a (99999 / 100000)) 0)\<rparr>))"

record Frame =
  f_frame :: jsstring
  f_alpha :: "jsstring option"
  f_duration :: rat
  f_trackNumber :: nat
  f_timecode :: nat

record muxer =
  m_options :: options
  writtenHeader :: bool
  videoWidth :: nat
  videoHeight :: nat
  clusterFrameBuffer :: "Frame list"
  clusterStartTime :: rat
  clusterDuration :: rat
  ebmlSegment :: "ebml option"
  segmentDuration :: ebml
  seekHead :: "ebml option"
  cues :: "ebml list"
  blobBuffer :: BlobBuffer
  heap :: store

definition MAX_CLUSTER_DURATION_MSEC :: rat where
  "MAX_CLUSTER_DURATION_MSEC = 5000"

definition DEFAULT_TRACK_NUMBER :: nat where
  "DEFAULT_TRACK_NUMBER = 1"

text \<open>
  The constructor. Its first statements read \<open>options.fileWriter\<close>, so a call without an
  options object throws a TypeError before \<open>validateOptions\<close> runs.
\<close>

definition WebMWriter :: "user_options option \<Rightarrow> error + muxer" where
  "WebMWriter uopts =
     (case uopts of
        None \<Rightarrow> Inl TypeError
      | Some u \<Rightarrow>
          and_then (validateOptions (extend_opts optionDefaults u))
            (\<lambda>opts. Inr \<lparr>m_options = opts, writtenHeader = False, videoWidth = 0, videoHeight = 0,
                           clusterFrameBuffer = [], clusterStartTime = 0, clusterDuration = 0,
                           ebmlSegment = None,
                           segmentDuration = Element 0x4489 SizeUnset (DFloat64 0) None None,
                           seekHead = None, cues = [],
                           blobBuffer = new_BlobBuffer, heap = []\<rparr>))"

text \<open>
  \<open>blobBuffer.write(stream.getAsDataArray())\<close>: the array is a new object of the heap.
  \<open>blobBuffer.seek\<close> in a chain of operations.
\<close>

definition writeStream :: "stream \<Rightarrow> muxer \<Rightarrow> error + muxer" where
  "writeStream bufferStream m =
     and_then
       (bb_write (DUint8Array (length (heap m)) 0 (ds_pos bufferStream))
                 (heap m @ [getAsDataArray bufferStream], blobBuffer m))
       (\<lambda>(st, b). Inr (m\<lparr>heap := st, blobBuffer := b\<rparr>))"

definition seekTo :: "nat \<Rightarrow> muxer \<Rightarrow> error + muxer" where
  "seekTo offset m =
     (case bb_seek (Num (int offset)) (blobBuffer m) of
        (Some e, b) \<Rightarrow> Inl e
      | (None, b) \<Rightarrow> Inr (m\<lparr>blobBuffer := b\<rparr>))"

text \<open>
  Properties read off an element object. Reading one off \<open>undefined\<close>, or using an unset
  offset as a number, does not happen once the header is written; it is a TypeError here.
\<close>

definition the_offset :: "ebml option \<Rightarrow> error + nat" where
  "the_offset x = (case x of Some (Element i s d (Some off) doff) \<Rightarrow> Inr off | _ \<Rightarrow> Inl TypeError)"

definition the_dataOffset :: "ebml option \<Rightarrow> error + nat" where
  "the_dataOffset x = (case x of Some (Element i s d off (Some doff)) \<Rightarrow> Inr doff | _ \<Rightarrow> Inl TypeError)"

definition fileOffsetToSegmentRelative :: "nat \<Rightarrow> muxer \<Rightarrow> error + nat" where
  "fileOffsetToSegmentRelative fileOffset m =
     and_then (the_dataOffset (ebmlSegment m)) (\<lambda>d. Inr (fileOffset - d))"

text \<open>The children of an element, and the \<open>i\<close>-th of them.\<close>

fun children_of :: "ebml \<Rightarrow> ebml list" where
  "children_of (Element i s (DArray xs) off doff) = xs"
| "children_of _ = []"

definition child :: "nat \<Rightarrow> ebml \<Rightarrow> ebml option" where
  "child i x = (if i < length (children_of x) then Some (children_of x ! i) else None)"

text \<open>
  \<open>seekPoints\<close>: Cues, SegmentInfo and Tracks, in this order. Each \<open>positionEBML\<close> object
  is the second child of its \<open>Seek\<close> entry in the \<open>SeekHead\<close>; assigning its \<open>data\<close> changes
  the \<open>SeekHead\<close> tree.
\<close>

definition seekPoint_ids :: "byte list list" where
  "seekPoint_ids = [[0x1C, 0x53, 0xBB, 0x6B], [0x15, 0x49, 0xA9, 0x66], [0x16, 0x54, 0xAE, 0x6B]]"

definition createSeekHead :: ebml where
  "createSeekHead =
     Element 0x114D9B74 SizeUnset
       (DArray (map (\<lambda>sid.
          Element 0x4DBB SizeUnset
            (DArray [Element 0x53AB SizeUnset (DBytes sid) None None,
                     Element 0x53AC (SizeNum 5) (DNumber 0) None None])
            None None) seekPoint_ids))
       None None"

fun set_data :: "ebml_data \<Rightarrow> ebml \<Rightarrow> ebml" where
  "set_data d (Element i s old off doff) = Element i s d off doff"
| "set_data d x = x"

fun set_children :: "ebml list \<Rightarrow> ebml \<Rightarrow> ebml" where
  "set_children xs (Element i s d off doff) = Element i s (DArray xs) off doff"
| "set_children xs x = x"

definition set_position :: "nat \<Rightarrow> nat \<Rightarrow> ebml \<Rightarrow> ebml" where
  "set_position k v sh =
     (let seeks = children_of sh;
          seek_k = seeks ! k;
          parts = children_of seek_k
      in if k < length seeks \<and> 1 < length parts
         then set_children (seeks[k := set_children (parts[1 := set_data (DNumber v) (parts ! 1)]) seek_k]) sh
         else sh)"

text \<open>
  \<open>writeHeader\<close> builds the EBML header and the Segment (\<open>header_tree\<close>), serializes
  both into a stream of 256 bytes, appends the stream to the sink and records where the
  top-level elements ended up.
\<close>

definition header_tree :: "muxer \<Rightarrow> ebml" where
  "header_tree m =
    (let seekHead0 = createSeekHead;
         ebmlHeader = Element 0x1a45dfa3 SizeUnset
           (DArray [Element 0x4286 SizeUnset (DNumber 1) None None,
                    Element 0x42f7 SizeUnset (DNumber 1) None None,
                    Element 0x42f2 SizeUnset (DNumber 4) None None,
                    Element 0x42f3 SizeUnset (DNumber 8) None None,
                    Element 0x4282 SizeUnset (DString' (js ''webm'')) None None,
                    Element 0x4287 SizeUnset (DNumber 2) None None,
                    Element 0x4285 SizeUnset (DNumber 2) None None]) None None;
         segmentInfo = Element 0x1549a966 SizeUnset
           (DArray [Element 0x2ad7b1 SizeUnset (DNumber 1000000) None None,
                    Element 0x4d80 SizeUnset (DString' (js ''webm-writer-js'')) None None,
                    Element 0x5741 SizeUnset (DString' (js ''webm-writer-js'')) None None,
                    segmentDuration m]) None None;
         videoProperties =
           [Element 0xb0 SizeUnset (DNumber (videoWidth m)) None None,
            Element 0xba SizeUnset (DNumber (videoHeight m)) None None]
           @ (if transparent (m_options m)
              then [Element 0x53C0 SizeUnset (DNumber 1) None None] else []);
         tracks = Element 0x1654ae6b SizeUnset
           (DArray [Element 0xae SizeUnset
              (DArray [Element 0xd7 SizeUnset (DNumber DEFAULT_TRACK_NUMBER) None None,
                       Element 0x73c5 SizeUnset (DNumber DEFAULT_TRACK_NUMBER) None None,
                       Element 0x9c SizeUnset (DNumber 0) None None,
                       Element 0x22b59c SizeUnset (DString' (js ''und'')) None None,
                       Element 0x86 SizeUnset (DString' (js ''V_VP8'')) None None,
                       Element 0x258688 SizeUnset (DString' (js ''VP8'')) None None,
                       Element 0x83 SizeUnset (DNumber 1) None None,
                       Element 0xe0 SizeUnset (DArray videoProperties) None None])
              None None]) None None;
         ebmlSegment0 = Element 0x18538067 EBML_SIZE_UNKNOWN_5_BYTES
           (DArray [seekHead0, segmentInfo, tracks]) None None
     in EArray [ebmlHeader, ebmlSegment0])"

definition writeHeader :: "muxer \<Rightarrow> error + muxer" where
  "writeHeader m =
    (let bufferStream = new_stream 256
     in and_then (writeEBML bufferStream (bb_pos (blobBuffer m)) (header_tree m))
        (\<lambda>(bufferStream', written).
          (case written of
             EArray [ebmlHeader', ebmlSegment'] \<Rightarrow>
               and_then (writeStream bufferStream' m) (\<lambda>m1.
                 let m2 = m1\<lparr>ebmlSegment := Some ebmlSegment',
                              seekHead := child 0 ebmlSegment',
                              segmentDuration :=
                                (case child 1 ebmlSegment' of
                                   Some info \<Rightarrow> (case child 3 info of Some d \<Rightarrow> d
                                                  | None \<Rightarrow> segmentDuration m1)
                                 | None \<Rightarrow> segmentDuration m1)\<rparr> in
                 and_then (the_offset (child 1 ebmlSegment')) (\<lambda>infoOffset.
                 and_then (fileOffsetToSegmentRelative infoOffset m2) (\<lambda>infoPos.
                 and_then (the_offset (child 2 ebmlSegment')) (\<lambda>tracksOffset.
                 and_then (fileOffsetToSegmentRelative tracksOffset m2) (\<lambda>tracksPos.
                   Inr (m2\<lparr>seekHead := map_option (set_position 2 tracksPos \<circ> set_position 1 infoPos)
                                            (seekHead m2),
                            writtenHeader := True\<rparr>))))))
           | _ \<Rightarrow> Inl TypeError)))"

text \<open>The four-byte block header: track number, cluster-relative timecode, flags.\<close>

definition block_header :: "Frame \<Rightarrow> byte \<Rightarrow> error + byte list" where
  "block_header keyframe flags =
     (let bufferStream = new_stream (1 + 2 + 1) in
      if \<not> (f_trackNumber keyframe > 0 \<and> f_trackNumber keyframe < 127) then Inl BadTrackNumber
      else
        and_then (writeEBMLVarInt (f_trackNumber keyframe) bufferStream) (\<lambda>s1.
        and_then (writeU16BE (f_timecode keyframe) s1) (\<lambda>s2.
        and_then (writeByte flags s2) (\<lambda>s3.
          Inr (getAsDataArray s3)))))"

definition createBlockGroupForTransparentKeyframe :: "Frame \<Rightarrow> error + ebml" where
  "createBlockGroupForTransparentKeyframe keyframe =
     and_then (block_header keyframe 0) (\<lambda>hdr.
       let block = Element 0xA1 SizeUnset (DArray [EBytes hdr, EString (f_frame keyframe)]) None None;
           blockAdditions = Element 0x75A1 SizeUnset
             (DArray [Element 0xA6 SizeUnset
                (DArray [Element 0xEE SizeUnset (DNumber 1) None None,
                         Element 0xA5 SizeUnset
                           (case f_alpha keyframe of Some a \<Rightarrow> DString' a | None \<Rightarrow> DOther)
                           None None]) None None]) None None
       in Inr (Element 0xA0 SizeUnset (DArray [block, blockAdditions]) None None))"

definition createSimpleBlockForKeyframe :: "Frame \<Rightarrow> error + ebml" where
  "createSimpleBlockForKeyframe keyframe =
     and_then (block_header keyframe 0x80) (\<lambda>hdr.
       Inr (Element 0xA3 SizeUnset (DArray [EBytes hdr, EString (f_frame keyframe)]) None None))"

text \<open>\<open>if (keyframe.alpha)\<close>: \<open>null\<close> and the empty string are falsy.\<close>

fun alpha_truthy :: "jsstring option \<Rightarrow> bool" where
  "alpha_truthy None = False"
| "alpha_truthy (Some a) = (a \<noteq> [])"

definition createContainerForKeyframe :: "Frame \<Rightarrow> error + ebml" where
  "createContainerForKeyframe keyframe =
     (if alpha_truthy (f_alpha keyframe) then createBlockGroupForTransparentKeyframe keyframe
      else createSimpleBlockForKeyframe keyframe)"

definition createCluster :: "rat \<Rightarrow> ebml" where
  "createCluster timecode =
     Element 0x1f43b675 SizeUnset
       (DArray [Element 0xe7 SizeUnset (DNumber (js_round timecode)) None None]) None None"

definition addCuePoint :: "nat \<Rightarrow> nat \<Rightarrow> nat \<Rightarrow> muxer \<Rightarrow> error + muxer" where
  "addCuePoint trackIndex clusterTime clusterFileOffset m =
     and_then (fileOffsetToSegmentRelative clusterFileOffset m) (\<lambda>rel.
       Inr (m\<lparr>cues := cues m @
          [Element 0xBB SizeUnset
             (DArray [Element 0xB3 SizeUnset (DNumber clusterTime) None None,
                      Element 0xB7 SizeUnset
                        (DArray [Element 0xF7 SizeUnset (DNumber trackIndex) None None,
                                 Element 0xF1 SizeUnset (DNumber rel) None None])
                        None None]) None None]\<rparr>))"

text \<open>The loop of \<open>flushClusterFrameBuffer\<close> that builds the block containers.\<close>

fun containers :: "Frame list \<Rightarrow> error + ebml list" where
  "containers [] = Inr []"
| "containers (f # fs) =
     and_then (createContainerForKeyframe f) (\<lambda>c.
     and_then (containers fs) (\<lambda>cs. Inr (c # cs)))"

definition writeCues :: "muxer \<Rightarrow> error + muxer" where
  "writeCues m =
     (let ebml0 = Element 0x1C53BB6B SizeUnset (DArray (cues m)) None None;
          cuesBuffer = new_stream (16 + length (cues m) * 32)
      in and_then (writeEBML cuesBuffer (bb_pos (blobBuffer m)) ebml0) (\<lambda>(cuesBuffer', ebml').
         and_then (writeStream cuesBuffer' m) (\<lambda>m1.
         and_then (the_offset (Some ebml')) (\<lambda>off.
         and_then (fileOffsetToSegmentRelative off m1) (\<lambda>rel.
           Inr (m1\<lparr>cues := children_of ebml',
                    seekHead := map_option (set_position 0 rel) (seekHead m1)\<rparr>))))))"

definition flushClusterFrameBuffer :: "(rat \<Rightarrow> rat \<Rightarrow> rat) \<Rightarrow> muxer \<Rightarrow> error + muxer" where
  "flushClusterFrameBuffer add m =
     (if length (clusterFrameBuffer m) = 0 then Inr m
      else
       (let rawImageSize =
              sum_list (map (\<lambda>f. length (f_frame f) +
                                 (if alpha_truthy (f_alpha f) then length (the (f_alpha f)) else 0))
                            (clusterFrameBuffer m));
            buffer = new_stream (rawImageSize + length (clusterFrameBuffer m) * 64);
            cluster = createCluster (rat_of_nat (js_round (clusterStartTime m)))
        in and_then (containers (clusterFrameBuffer m)) (\<lambda>cs.
           and_then (writeEBML buffer (bb_pos (blobBuffer m))
                       (set_children (children_of cluster @ cs) cluster)) (\<lambda>(buffer', cluster').
           and_then (writeStream buffer' m) (\<lambda>m1.
           and_then (the_offset (Some cluster')) (\<lambda>off.
           and_then (addCuePoint DEFAULT_TRACK_NUMBER (js_round (clusterStartTime m1)) off m1) (\<lambda>m2.
             Inr (m2\<lparr>clusterFrameBuffer := [],
                      clusterStartTime := add (clusterStartTime m2) (clusterDuration m2),
                      clusterDuration := 0\<rparr>))))))))"

definition addFrameToCluster :: "(rat \<Rightarrow> rat \<Rightarrow> rat) \<Rightarrow> Frame \<Rightarrow> muxer \<Rightarrow> error + muxer" where
  "addFrameToCluster add frame m =
     (let frame1 = frame\<lparr>f_trackNumber := DEFAULT_TRACK_NUMBER\<rparr>;
          frame2 = frame1\<lparr>f_timecode := js_round (clusterDuration m)\<rparr>;
          m1 = m\<lparr>clusterFrameBuffer := clusterFrameBuffer m @ [frame2]\<rparr>;
          m2 = m1\<lparr>clusterDuration := add (clusterDuration m1) (f_duration frame2)\<rparr>
      in if clusterDuration m2 \<ge> MAX_CLUSTER_DURATION_MSEC then flushClusterFrameBuffer add m2
         else Inr m2)"

definition rewriteSeekHead :: "muxer \<Rightarrow> error + muxer" where
  "rewriteSeekHead m =
     (case seekHead m of
        Some (Element i (SizeNum n) d off (Some dataOffset)) \<Rightarrow>
          (let seekHeadBuffer = new_stream n;
               oldPos = bb_pos (blobBuffer m)
           in and_then (writeEBML seekHeadBuffer dataOffset
                          (EArray (children_of (Element i (SizeNum n) d off (Some dataOffset)))))
                (\<lambda>(seekHeadBuffer', written).
              and_then (seekTo dataOffset m) (\<lambda>m1.
              and_then (writeStream seekHeadBuffer' m1) (\<lambda>m2.
              and_then (seekTo oldPos m2) (\<lambda>m3.
                Inr (m3\<lparr>seekHead :=
                     Some (case written of
                             EArray xs \<Rightarrow> set_children xs (Element i (SizeNum n) d off (Some dataOffset))
                           | _ \<Rightarrow> Element i (SizeNum n) d off (Some dataOffset))\<rparr>))))))
      | _ \<Rightarrow> Inl TypeError)"

text \<open>
  The IEEE-754 bit pattern of a number is not computed here: \<open>rewriteDuration\<close> takes the
  encoding of doubles, \<open>enc\<close>, as a parameter.
\<close>

definition rewriteDuration :: "(rat \<Rightarrow> 64 word) \<Rightarrow> muxer \<Rightarrow> error + muxer" where
  "rewriteDuration enc m =
     (let buffer = new_stream 8;
          oldPos = bb_pos (blobBuffer m)
      in and_then (writeDoubleBE (enc (clusterStartTime m)) buffer) (\<lambda>buffer'.
         and_then (the_dataOffset (Some (segmentDuration m))) (\<lambda>d.
         and_then (seekTo d m) (\<lambda>m1.
         and_then (writeStream buffer' m1) (\<lambda>m2.
         seekTo oldPos m2)))))"

definition rewriteSegmentLength :: "muxer \<Rightarrow> error + muxer" where
  "rewriteSegmentLength m =
     (let buffer = new_stream 10;
          oldPos = bb_pos (blobBuffer m)
      in (case ebmlSegment m of
            None \<Rightarrow> Inl TypeError
          | Some seg \<Rightarrow>
             and_then (writeUnsignedIntBE (el_id seg) None buffer) (\<lambda>b1.
             and_then (the_dataOffset (ebmlSegment m)) (\<lambda>dataOffset.
             and_then (writeEBMLVarIntWidth (bb_pos (blobBuffer m) - dataOffset) 5 b1) (\<lambda>b2.
             and_then (the_offset (ebmlSegment m)) (\<lambda>off.
             and_then (seekTo off m) (\<lambda>m1.
             and_then (writeStream b2 m1) (\<lambda>m2.
             seekTo oldPos m2))))))))"

text \<open>The arguments of \<open>addFrame\<close>.\<close>

record image =
  i_width :: "nat option"
  i_height :: "nat option"
  i_webp :: jsstring
  i_alpha_webp :: jsstring

datatype alpha_arg = NoAlpha | AlphaNumber rat | AlphaImage jsstring

text \<open>
  \<open>i_webp\<close> is \<open>renderAsWebP(frame, options.quality)\<close>, \<open>i_alpha_webp\<close> is
  \<open>renderAsWebP(convertAlphaToGrayscaleImage(frame), options.alphaQuality)\<close>, and the string
  of \<open>AlphaImage\<close> is \<open>renderAsWebP(alpha, options.alphaQuality)\<close>.
\<close>

definition addFrame ::
  "(rat \<Rightarrow> rat \<Rightarrow> rat) \<Rightarrow> image \<Rightarrow> alpha_arg \<Rightarrow> rat option \<Rightarrow> muxer \<Rightarrow> error + muxer" where
  "addFrame add frame alpha overrideFrameDuration m =
     and_then
       (if \<not> writtenHeader m then
          writeHeader (m\<lparr>videoWidth := (case i_width frame of Some w \<Rightarrow> w | None \<Rightarrow> 0),
                        videoHeight := (case i_height frame of Some h \<Rightarrow> h | None \<Rightarrow> 0)\<rparr>)
        else Inr m)
       (\<lambda>m1.
         and_then (extractKeyframeFromWebP (i_webp frame)) (\<lambda>keyframe.
           let frameDuration' =
                 (if num_truthy overrideFrameDuration then the overrideFrameDuration
                  else (case alpha of
                          AlphaNumber d \<Rightarrow> d
                        | _ \<Rightarrow> the (frameDuration (m_options m1))));
               frameAlpha =
                 (if transparent (m_options m1) then
                    (case alpha of
                       AlphaImage a \<Rightarrow> Some a
                     | _ \<Rightarrow> if k_hasAlpha keyframe then Some (i_alpha_webp frame) else None)
                  else None)
           in and_then
                (case frameAlpha of
                   Some a \<Rightarrow> and_then (extractKeyframeFromWebP a) (\<lambda>ka. Inr (Some (k_frame ka)))
                 | None \<Rightarrow> Inr None)
                (\<lambda>alphaFrame.
                   addFrameToCluster add
                     \<lparr>f_frame = k_frame keyframe, f_alpha = alphaFrame,
                      f_duration = frameDuration', f_trackNumber = 0, f_timecode = 0\<rparr> m1)))"

definition complete ::
  "(rat \<Rightarrow> rat \<Rightarrow> rat) \<Rightarrow> (rat \<Rightarrow> 64 word) \<Rightarrow> muxer \<Rightarrow> error + ((byte list \<times> string) \<times> muxer)" where
  "complete add enc m =
     and_then (if \<not> writtenHeader m then writeHeader m else Inr m) (\<lambda>m1.
     and_then (flushClusterFrameBuffer add m1) (\<lambda>m2.
     and_then (writeCues m2) (\<lambda>m3.
     and_then (rewriteSeekHead m3) (\<lambda>m4.
     and_then (rewriteDuration enc m4) (\<lambda>m5.
     and_then (rewriteSegmentLength m5) (\<lambda>m6.
       Inr (bb_complete ''video/webm'' (heap m6, blobBuffer m6), m6)))))))"

definition getWrittenSize :: "muxer \<Rightarrow> nat" where
  "getWrittenSize m = bb_length (blobBuffer m)"

subsection \<open>Notions used to state the properties of the muxer\<close>

text \<open>
  \<open>chosen_duration\<close> is the duration \<open>addFrame\<close> gives the frame it adds. \<open>cluster_ok\<close>:
  the cluster duration is what adding up the durations of the buffered frames, one after
  the other from 0, gives in doubles, and the buffer is empty or that duration is below the
  maximum. \<open>addFrames\<close> is a sequence of \<open>addFrame\<close> calls.
\<close>

definition chosen_duration :: "rat option \<Rightarrow> alpha_arg \<Rightarrow> muxer \<Rightarrow> rat" where
  "chosen_duration overrideFrameDuration alpha m =
     (if num_truthy overrideFrameDuration then the overrideFrameDuration
      else (case alpha of
              AlphaNumber d \<Rightarrow> d
            | _ \<Rightarrow> the (frameDuration (m_options m))))"

definition cluster_ok :: "(rat \<Rightarrow> rat \<Rightarrow> rat) \<Rightarrow> muxer \<Rightarrow> bool" where
  "cluster_ok add m \<longleftrightarrow>
     clusterDuration m = foldl add 0 (map f_duration (clusterFrameBuffer m)) \<and>
     (clusterFrameBuffer m = [] \<or> clusterDuration m < MAX_CLUSTER_DURATION_MSEC)"

fun addFrames ::
  "(rat \<Rightarrow> rat \<Rightarrow> rat) \<Rightarrow> (image \<times> alpha_arg \<times> rat option) list \<Rightarrow> muxer \<Rightarrow> error + muxer" where
  "addFrames add [] m = Inr m"
| "addFrames add ((frame, alpha, overrideFrameDuration) # calls) m =
     and_then (addFrame add frame alpha overrideFrameDuration m) (addFrames add calls)"

section \<open>Properties of the sink\<close>

text \<open>
  C9. \<open>seek\<close> succeeds, and then sets \<open>pos\<close> to the offset, exactly for an offset that is
  not NaN and lies in \<open>[0, length]\<close>; a negative offset throws NegativeOffset, NaN throws
  NaNOffset, an offset beyond \<open>length\<close> throws SeekBeyondEnd; a failing \<open>seek\<close> leaves the
  sink as it was.
\<close>

theorem seek_cases:
  "(fst (bb_seek offset b) = None \<longleftrightarrow> (\<exists>i. offset = Num i \<and> 0 \<le> i \<and> i \<le> int (bb_length b))) \<and>
   (\<forall>i. offset = Num i \<and> 0 \<le> i \<and> i \<le> int (bb_length b) \<longrightarrow>
        int (bb_pos (snd (bb_seek offset b))) = i \<and>
        snd (bb_seek offset b) = b\<lparr>bb_pos := nat i\<rparr>) \<and>
   (\<forall>i. offset = Num i \<and> i < 0 \<longrightarrow> fst (bb_seek offset b) = Some NegativeOffset) \<and>
   (offset = NaN \<longrightarrow> fst (bb_seek offset b) = Some NaNOffset) \<and>
   (\<forall>i. offset = Num i \<and> i > int (bb_length b) \<longrightarrow> fst (bb_seek offset b) = Some SeekBeyondEnd) \<and>
   (fst (bb_seek offset b) \<noteq> None \<longrightarrow> snd (bb_seek offset b) = b)"
  by (cases offset) (auto simp: bb_seek_def)

theorem seek_cases_witness:
  "fst (bb_seek (Num 3) \<lparr>bb_buffer = [], bb_pos = 0, bb_length = 5\<rparr>) = None \<and>
   bb_pos (snd (bb_seek (Num 3) \<lparr>bb_buffer = [], bb_pos = 0, bb_length = 5\<rparr>)) = 3 \<and>
   fst (bb_seek (Num (- 1)) \<lparr>bb_buffer = [], bb_pos = 2, bb_length = 5\<rparr>) = Some NegativeOffset \<and>
   fst (bb_seek NaN \<lparr>bb_buffer = [], bb_pos = 2, bb_length = 5\<rparr>) = Some NaNOffset \<and>
   fst (bb_seek (Num 6) \<lparr>bb_buffer = [], bb_pos = 2, bb_length = 5\<rparr>) = Some SeekBeyondEnd \<and>
   bb_pos (snd (bb_seek (Num 6) \<lparr>bb_buffer = [], bb_pos = 2, bb_length = 5\<rparr>)) = 2"
  using seek_cases [of "Num 3" "\<lparr>bb_buffer = [], bb_pos = 0, bb_length = 5\<rparr>"]
        seek_cases [of "Num (- 1)" "\<lparr>bb_buffer = [], bb_pos = 2, bb_length = 5\<rparr>"]
        seek_cases [of NaN "\<lparr>bb_buffer = [], bb_pos = 2, bb_length = 5\<rparr>"]
        seek_cases [of "Num 6" "\<lparr>bb_buffer = [], bb_pos = 2, bb_length = 5\<rparr>"]
  by simp

text \<open>
  C10, as stated: every zero-length datum, a zero-size Blob included, makes \<open>write\<close> fail
  with the size-measurement error. For a zero-size Blob this is false: \<open>byteLength\<close> and
  \<open>length\<close> are undefined, so the probe \<open>undefined || undefined || 0\<close> yields \<open>0\<close>, an
  integer, and \<open>write\<close> records an entry of length zero.
\<close>

theorem zero_size_blob_counterexample:
  "bb_write (DBlob []) ([], new_BlobBuffer) =
     Inr ([], \<lparr>bb_buffer = [\<lparr>e_offset = 0, e_data = DBlob [], e_length = 0\<rparr>],
               bb_pos = 0, bb_length = 0\<rparr>)"
  by (simp add: bb_write_def measureData_def js_or_def new_BlobBuffer_def)

text \<open>
  C10, amended. An empty string, an empty \<open>Uint8Array\<close> and an empty \<open>ArrayBuffer\<close> make
  \<open>write\<close> fail with the size-measurement error, whatever the state of the sink: each has
  a falsy \<open>0\<close> in \<open>byteLength\<close> or \<open>length\<close> and no \<open>size\<close>. A zero-size Blob is measured
  as \<open>0\<close>, and appending it records an entry of length zero.
\<close>

theorem zero_length_write:
  "(d = DString [] \<or> d = DUint8Array a off 0 \<or> (d = DArrayBuffer a \<and> st ! a = []) \<longrightarrow>
      bb_write d (st, b) = Inl MeasureUnknownLength) \<and>
   measureData st (DBlob []) = Inr 0 \<and>
   (bb_length b \<le> bb_pos b \<longrightarrow>
      bb_write (DBlob []) (st, b) =
        Inr (st, b\<lparr>bb_buffer := bb_buffer b @ [\<lparr>e_offset = bb_pos b, e_data = DBlob [], e_length = 0\<rparr>],
                   bb_length := bb_pos b\<rparr>))"
  by (auto simp: bb_write_def measureData_def js_or_def max_def)

theorem zero_length_write_witness:
  "bb_write (DString []) ([[]], new_BlobBuffer) = Inl MeasureUnknownLength \<and>
   bb_write (DUint8Array 0 0 0) ([[]], new_BlobBuffer) = Inl MeasureUnknownLength \<and>
   bb_write (DArrayBuffer 0) ([[]], new_BlobBuffer) = Inl MeasureUnknownLength \<and>
   bb_write (DBlob []) ([[]], new_BlobBuffer) =
     Inr ([[]], new_BlobBuffer\<lparr>bb_buffer := [\<lparr>e_offset = 0, e_data = DBlob [], e_length = 0\<rparr>],
                               bb_length := 0\<rparr>)"
  using zero_length_write [of "DString []" 0 0 "[[]]" new_BlobBuffer]
        zero_length_write [of "DUint8Array 0 0 0" 0 0 "[[]]" new_BlobBuffer]
        zero_length_write [of "DArrayBuffer 0" 0 0 "[[]]" new_BlobBuffer]
  by (simp add: new_BlobBuffer_def)

section \<open>Properties of the keyframe extractor\<close>

lemma or_push_bit_nat:
  fixes x y :: nat
  assumes "x < 2 ^ n"
  shows "x OR push_bit n y = x + push_bit n y"
proof -
  have tb: "take_bit n x = x"
    using assms by (simp add: take_bit_nat_eq_self)
  have "x + push_bit n y = x OR push_bit n y"
  proof (rule disjunctive_add)
    fix k
    have "bit x k \<Longrightarrow> k < n"
      using tb by (metis bit_take_bit_iff)
    moreover have "bit (push_bit n y) k \<Longrightarrow> n \<le> k"
      by (simp add: bit_push_bit_iff)
    ultimately show "\<not> bit x k \<or> \<not> bit (push_bit n y) k"
      by fastforce
  qed
  then show ?thesis by simp
qed


lemma unat_push_bit_small:
  fixes w :: "32 word"
  assumes "unat w < 2 ^ 8" "n \<le> 24"
  shows "unat (push_bit n w) = push_bit n (unat w)"
proof -
  have "unat w * 2 ^ n < 2 ^ 8 * 2 ^ n"
    using assms(1) by simp
  also have "\<dots> = (2::nat) ^ (8 + n)"
    by (simp add: power_add)
  also have "\<dots> \<le> 2 ^ 32"
    using assms(2) by (intro power_increasing) simp_all
  finally have "push_bit n (unat w) < 2 ^ 32"
    by (simp add: push_bit_eq_mult)
  then show ?thesis
    by (simp add: unsigned_push_bit_eq take_bit_nat_eq_self)
qed

lemma le32_word:
  fixes a b c d :: "16 word"
  assumes "a < 256" "b < 256" "c < 256" "d < 256"
  shows "unat ((ucast a :: 32 word) OR push_bit 8 (ucast b) OR push_bit 16 (ucast c) OR push_bit 24 (ucast d))
         = unat a + 256 * unat b + 65536 * unat c + 16777216 * unat d"
proof -
  have lt: "unat a < 2 ^ 8" "unat b < 2 ^ 8" "unat c < 2 ^ 8" "unat d < 2 ^ 8"
    using assms by (simp_all add: word_less_nat_alt)
  have u: "unat (ucast x :: 32 word) = unat x" for x :: "16 word"
  proof -
    have "unat x < 2 ^ 16"
      using unsigned_less [of x] by simp
    then have "unat x < 2 ^ 32"
      by simp
    then show ?thesis
      by (simp add: unsigned_ucast_eq take_bit_nat_eq_self)
  qed
  have p8: "unat (push_bit 8 (ucast b :: 32 word)) = push_bit 8 (unat b)"
    using unat_push_bit_small [of "ucast b" 8] lt(2) by (simp add: u)
  have p16: "unat (push_bit 16 (ucast c :: 32 word)) = push_bit 16 (unat c)"
    using unat_push_bit_small [of "ucast c" 16] lt(3) by (simp add: u)
  have p24: "unat (push_bit 24 (ucast d :: 32 word)) = push_bit 24 (unat d)"
    using unat_push_bit_small [of "ucast d" 24] lt(4) by (simp add: u)
  have "unat ((ucast a :: 32 word) OR push_bit 8 (ucast b) OR push_bit 16 (ucast c) OR push_bit 24 (ucast d))
        = unat a OR push_bit 8 (unat b) OR push_bit 16 (unat c) OR push_bit 24 (unat d)"
    by (simp only: unsigned_or_eq u p8 p16 p24)
  also have "\<dots> = unat a OR push_bit 8 (unat b OR push_bit 8 (unat c OR push_bit 8 (unat d)))"
    by (simp only: push_bit_or push_bit_push_bit, simp)
  also have "\<dots> = unat a + push_bit 8 (unat b + push_bit 8 (unat c + push_bit 8 (unat d)))"
    using lt by (simp only: or_push_bit_nat)
  also have "\<dots> = unat a + 256 * unat b + 65536 * unat c + 16777216 * unat d"
    by (simp add: push_bit_eq_mult)
  finally show ?thesis .
qed


lemma byteStringToUint32LE_le_u32:
  assumes "length s = 4" "\<forall>x\<in>set s. x < 256"
  shows "byteStringToUint32LE s = le_u32 s"
proof -
  have "s ! 0 < 256" "s ! 1 < 256" "s ! 2 < 256" "s ! 3 < 256"
    using assms by simp_all
  then show ?thesis
    using assms(1) by (simp add: byteStringToUint32LE_def charCodeAt_def le_u32_def le32_word)
qed



lemma riff_chunks_end: "\<not> c + 8 < length w \<Longrightarrow> riff_chunks w c = []"
  by (subst riff_chunks.simps) simp

lemma chunk_scan_end: "\<not> c + 8 < length w \<Longrightarrow> chunk_scan w c = Inl BadWebP"
  by (simp add: chunk_scan_def first_vp8_def riff_chunks_end)

lemma riff_chunks_step:
  assumes "c + 8 < length w"
  shows "riff_chunks w c =
     (take 4 (drop c w), le_u32 (take 4 (drop (c + 4) w)), c + 8) #
     riff_chunks w (c + 8 + le_u32 (take 4 (drop (c + 4) w)) + le_u32 (take 4 (drop (c + 4) w)) mod 2)"
  using assms by (subst riff_chunks.simps) (simp add: Let_def)

lemma first_vp8_Cons:
  "first_vp8 w ((cc, len, p) # cs) =
     (if cc = js ''VP8 '' then Inr \<lparr>k_frame = take len (drop p w), k_hasAlpha = False\<rparr>
      else (case first_vp8 w cs of
              Inl e \<Rightarrow> Inl e
            | Inr k \<Rightarrow> Inr (k\<lparr>k_hasAlpha := (cc = js ''ALPH'' \<or> k_hasAlpha k)\<rparr>)))"
proof (cases "dropWhile (\<lambda>(cc, len, p). cc \<noteq> js ''VP8 '') cs")
  case Nil
  show ?thesis
    unfolding first_vp8_def dropWhile.simps takeWhile.simps Nil by simp
next
  case (Cons a list)
  show ?thesis
    unfolding first_vp8_def dropWhile.simps takeWhile.simps Cons by (cases a) auto
qed

lemma chunk_scan_step:
  assumes "c + 8 < length w"
  shows "chunk_scan w c =
    (let len = le_u32 (take 4 (drop (c + 4) w)); cc = take 4 (drop c w) in
     if cc = js ''VP8 '' then Inr \<lparr>k_frame = take len (drop (c + 8) w), k_hasAlpha = False\<rparr>
     else (case chunk_scan w (c + 8 + len + len mod 2) of
             Inl e \<Rightarrow> Inl e
           | Inr k \<Rightarrow> Inr (k\<lparr>k_hasAlpha := (cc = js ''ALPH'' \<or> k_hasAlpha k)\<rparr>)))"
  unfolding chunk_scan_def
  by (subst riff_chunks_step [OF assms]) (simp only: first_vp8_Cons Let_def)

lemma scan_chunks_refines:
  assumes "\<forall>x\<in>set w. x < 256"
  shows "scan_chunks w c ha =
    (case chunk_scan w c of
       Inl e \<Rightarrow> Inl e
     | Inr k \<Rightarrow> Inr (k\<lparr>k_hasAlpha := (ha \<or> k_hasAlpha k)\<rparr>))"
  using assms
proof (induction w c ha rule: scan_chunks.induct)
  case (1 webP cursor hasAlpha)
  show ?case
  proof (cases "cursor + 8 < length webP")
    case False
    then show ?thesis
      by (subst scan_chunks.simps) (simp add: chunk_scan_end)
  next
    case True
    let ?s = "substring webP (cursor + 4) (cursor + 4 + 4)"
    let ?len = "le_u32 (take 4 (drop (cursor + 4) webP))"
    have s4: "length ?s = 4"
      using True by (simp add: substring_def)
    have "set ?s \<subseteq> set webP"
      unfolding substring_def by (meson set_take_subset set_drop_subset subset_trans)
    then have "\<forall>x\<in>set ?s. x < 256"
      using "1.prems" by auto
    then have len: "byteStringToUint32LE ?s = ?len"
      using s4 by (simp add: byteStringToUint32LE_le_u32) (simp add: substring_def)
    have cond: "int cursor < int (length webP) - 8"
      using True by simp
    have cc: "substring webP cursor (cursor + 4) = take 4 (drop cursor webP)"
      by (simp add: substring_def)
    show ?thesis
    proof (cases "take 4 (drop cursor webP) = js ''VP8 ''")
      case vp8: True
      have "scan_chunks webP cursor hasAlpha =
            Inr \<lparr>k_frame = take ?len (drop (cursor + 8) webP), k_hasAlpha = hasAlpha\<rparr>"
        using cond vp8 len cc
        by (subst scan_chunks.simps) (simp add: Let_def substring_def add.commute)
      moreover have "chunk_scan webP cursor =
            Inr \<lparr>k_frame = take ?len (drop (cursor + 8) webP), k_hasAlpha = False\<rparr>"
        using vp8 by (simp add: chunk_scan_step [OF True] Let_def)
      ultimately show ?thesis by simp
    next
      case vp8: False
      let ?next = "cursor + 8 + ?len + ?len mod 2"
      let ?ha = "if take 4 (drop cursor webP) = js ''ALPH'' then True else hasAlpha"
      have vp8': "substring webP cursor (cursor + 4) \<noteq> js ''VP8 ''"
        using vp8 cc by simp
      have nxt: "(if ?len mod 2 \<noteq> 0 then cursor + 4 + 4 + ?len + 1 else cursor + 4 + 4 + ?len) = ?next"
        by auto
      have "scan_chunks webP cursor hasAlpha =
            scan_chunks webP
              (if ?len mod 2 \<noteq> 0 then cursor + 4 + 4 + ?len + 1 else cursor + 4 + 4 + ?len) ?ha"
        by (subst scan_chunks.simps) (simp only: cond if_True Let_def len cc vp8 if_False)
      then have step: "scan_chunks webP cursor hasAlpha = scan_chunks webP ?next ?ha"
        by (simp only: nxt)
      have "scan_chunks webP
              (if ?len mod 2 \<noteq> 0 then cursor + 4 + 4 + ?len + 1 else cursor + 4 + 4 + ?len) ?ha =
          (case chunk_scan webP
              (if ?len mod 2 \<noteq> 0 then cursor + 4 + 4 + ?len + 1 else cursor + 4 + 4 + ?len) of
             Inl e \<Rightarrow> Inl e
           | Inr k \<Rightarrow> Inr (k\<lparr>k_hasAlpha := (?ha \<or> k_hasAlpha k)\<rparr>))"
        using "1.IH" [OF cond refl refl refl refl vp8' refl refl refl "1.prems"]
        by (simp only: len cc)
      then have ih: "scan_chunks webP ?next ?ha =
          (case chunk_scan webP ?next of
             Inl e \<Rightarrow> Inl e
           | Inr k \<Rightarrow> Inr (k\<lparr>k_hasAlpha := (?ha \<or> k_hasAlpha k)\<rparr>))"
        by (simp only: nxt)
      have spec: "chunk_scan webP cursor =
          (case chunk_scan webP ?next of
             Inl e \<Rightarrow> Inl e
           | Inr k \<Rightarrow> Inr (k\<lparr>k_hasAlpha := (take 4 (drop cursor webP) = js ''ALPH'' \<or> k_hasAlpha k)\<rparr>))"
        by (subst chunk_scan_step [OF True]) (simp only: Let_def vp8 if_False)
      show ?thesis
        unfolding step ih spec by (cases "chunk_scan webP ?next") auto
    qed
  qed
qed

lemma find_sub_Some:
  "find_sub pat xs i = Some j \<Longrightarrow>
     i \<le> j \<and> take (length pat) (drop (j - i) xs) = pat \<and>
     (\<forall>k < j - i. take (length pat) (drop k xs) \<noteq> pat)"
proof (induction xs arbitrary: i)
  case Nil
  then show ?case by (simp split: if_splits)
next
  case (Cons x xs)
  show ?case
  proof (cases "take (length pat) (x # xs) = pat")
    case True
    with Cons.prems show ?thesis by simp
  next
    case False
    with Cons.prems have rec: "find_sub pat xs (Suc i) = Some j" by simp
    from Cons.IH [OF rec] have ih: "Suc i \<le> j" "take (length pat) (drop (j - Suc i) xs) = pat"
      "\<forall>k < j - Suc i. take (length pat) (drop k xs) \<noteq> pat" by auto
    have ji: "j - i = Suc (j - Suc i)" using ih(1) by simp
    have "\<forall>k < j - i. take (length pat) (drop k (x # xs)) \<noteq> pat"
    proof (intro allI impI)
      fix k assume k: "k < j - i"
      show "take (length pat) (drop k (x # xs)) \<noteq> pat"
      proof (cases k)
        case 0
        then show ?thesis using False by simp
      next
        case (Suc k')
        then have "k' < j - Suc i" using k ji by simp
        then show ?thesis using ih(3) Suc by simp
      qed
    qed
    then show ?thesis using ih ji by simp
  qed
qed

lemma find_sub_None:
  "pat \<noteq> [] \<Longrightarrow> find_sub pat xs i = None \<Longrightarrow> take (length pat) (drop k xs) \<noteq> pat"
proof (induction xs arbitrary: i k)
  case Nil
  then show ?case by auto
next
  case (Cons x xs)
  then show ?case by (cases k) (auto split: if_splits)
qed

lemma find_sub_here:
  "xs \<noteq> [] \<Longrightarrow> take (length pat) xs = pat \<Longrightarrow> find_sub pat xs i = Some i"
  by (cases xs) auto

lemma js_VP8_length: "length (js ''VP8'') = 3" "js ''VP8'' \<noteq> []"
  by (simp_all add: js_def)

lemma indexOf_VP8_cases:
  "(indexOf w (js ''VP8'') 12 = - 1 \<and> (\<forall>k \<ge> 12. take 3 (drop k w) \<noteq> js ''VP8'')) \<or>
   (\<exists>c. indexOf w (js ''VP8'') 12 = int c \<and> 12 \<le> c \<and> take 3 (drop c w) = js ''VP8'' \<and>
        (\<forall>k. 12 \<le> k \<and> k < c \<longrightarrow> take 3 (drop k w) \<noteq> js ''VP8''))"
proof (cases "find_sub (js ''VP8'') (drop 12 w) (min 12 (length w))")
  case None
  have "take 3 (drop k w) \<noteq> js ''VP8''" if "12 \<le> k" for k
  proof -
    have "take (length (js ''VP8'')) (drop (k - 12) (drop 12 w)) \<noteq> js ''VP8''"
      using find_sub_None [OF js_VP8_length(2) None] .
    then show ?thesis using that by (simp add: js_VP8_length)
  qed
  then show ?thesis using None by (simp add: indexOf_def)
next
  case (Some j)
  show ?thesis
  proof (cases "12 \<le> length w")
    case False
    then have "drop 12 w = []" by simp
    with Some show ?thesis using js_VP8_length(2) by simp
  next
    case True
    then have m: "min 12 (length w) = 12" by simp
    from find_sub_Some [OF Some [unfolded m]]
    have j1: "12 \<le> j"
      and j2: "take (length (js ''VP8'')) (drop (j - 12) (drop 12 w)) = js ''VP8''"
      and j3: "\<forall>k < j - 12. take (length (js ''VP8'')) (drop k (drop 12 w)) \<noteq> js ''VP8''"
      by blast+
    have e: "j - 12 + 12 = j" using j1 by simp
    have "take 3 (drop j w) = js ''VP8''"
      using j2 e by (simp add: js_VP8_length)
    moreover have "take 3 (drop k w) \<noteq> js ''VP8''" if "12 \<le> k" "k < j" for k
    proof -
      have "k - 12 < j - 12" using that by simp
      then have "take (length (js ''VP8'')) (drop (k - 12) (drop 12 w)) \<noteq> js ''VP8''"
        using j3 by blast
      moreover have "k - 12 + 12 = k" using that by simp
      ultimately show ?thesis by (simp add: js_VP8_length)
    qed
    ultimately show ?thesis using Some j1 by (auto simp: indexOf_def)
  qed
qed

lemma extract_from_index:
  assumes "\<forall>x\<in>set w. x < 256" "indexOf w (js ''VP8'') 12 = int c"
  shows "extractKeyframeFromWebP w = chunk_scan w c"
proof -
  have "extractKeyframeFromWebP w = scan_chunks w c False"
    using assms(2) by (simp add: extractKeyframeFromWebP_def Let_def)
  also have "\<dots> = chunk_scan w c"
    using scan_chunks_refines [OF assms(1), of c False]
    by (cases "chunk_scan w c") simp_all
  finally show ?thesis .
qed

text \<open>
  C5, as stated, has the scan start at byte 12. The source starts it at the first
  occurrence of \<open>"VP8"\<close> at or after byte 12 (\<open>webP.indexOf('VP8', 12)\<close>). In the
  container below an \<open>ALPH\<close> chunk sits at byte 12 and the \<open>"VP8 "\<close> chunk follows at byte
  22: the source starts at byte 22 and reports no alpha, a scan from byte 12 meets the
  \<open>ALPH\<close> chunk first and reports alpha.
\<close>

theorem webp_scan_counterexample:
  "extractKeyframeFromWebP
     (js ''RIFF'' @ [26, 0, 0, 0] @ js ''WEBPALPH'' @ [2, 0, 0, 0] @ [1, 2] @
      js ''VP8 '' @ [4, 0, 0, 0] @ js ''abcd'')
     = Inr \<lparr>k_frame = js ''abcd'', k_hasAlpha = False\<rparr> \<and>
   chunk_scan
     (js ''RIFF'' @ [26, 0, 0, 0] @ js ''WEBPALPH'' @ [2, 0, 0, 0] @ [1, 2] @
      js ''VP8 '' @ [4, 0, 0, 0] @ js ''abcd'') 12
     = Inr \<lparr>k_frame = js ''abcd'', k_hasAlpha = True\<rparr>"
proof -
  let ?w = "js ''RIFF'' @ [26, 0, 0, 0] @ js ''WEBPALPH'' @ [2, 0, 0, 0] @ [1, 2] @
      js ''VP8 '' @ [4, 0, 0, 0] @ js ''abcd''"
  have "extractKeyframeFromWebP ?w = Inr \<lparr>k_frame = js ''abcd'', k_hasAlpha = False\<rparr>"
    by code_simp
  moreover have "chunk_scan ?w 12 = Inr \<lparr>k_frame = js ''abcd'', k_hasAlpha = True\<rparr>"
    by (simp add: chunk_scan_def first_vp8_def riff_chunks_step riff_chunks_end js_def le_u32_def)
  ultimately show ?thesis by simp
qed

text \<open>
  C5, amended. For every byte string (code units below 256) the extractor fails with
  BadWebP when \<open>"VP8"\<close> does not occur at or after byte 12; otherwise it scans the 8-byte
  chunk headers (FourCC, little-endian u32 length) starting at the first such occurrence,
  which is byte 12 whenever \<open>"VP8"\<close> stands there, as in a well-formed WebP file. It returns
  the payload of the first \<open>"VP8 "\<close> chunk of that scan, with \<open>hasAlpha\<close> true iff an
  \<open>"ALPH"\<close> chunk precedes it in the scan, skips every other chunk by its length plus the
  padding byte of an odd length, and fails with BadWebP when the scan meets no \<open>"VP8 "\<close>
  chunk whose header ends before the end of the input.
\<close>

theorem webp_scan:
  assumes "\<forall>x\<in>set w. x < 256"
  shows "(indexOf w (js ''VP8'') 12 = - 1 \<longrightarrow> extractKeyframeFromWebP w = Inl BadWebP) \<and>
     (\<forall>c. indexOf w (js ''VP8'') 12 = int c \<longrightarrow>
          extractKeyframeFromWebP w = chunk_scan w c \<and> 12 \<le> c \<and>
          take 3 (drop c w) = js ''VP8'' \<and>
          (\<forall>k. 12 \<le> k \<and> k < c \<longrightarrow> take 3 (drop k w) \<noteq> js ''VP8'')) \<and>
     (take 3 (drop 12 w) = js ''VP8'' \<longrightarrow> extractKeyframeFromWebP w = chunk_scan w 12) \<and>
     ((\<forall>k \<ge> 12. take 3 (drop k w) \<noteq> js ''VP8'') \<longrightarrow> extractKeyframeFromWebP w = Inl BadWebP)"
proof (intro conjI allI impI)
  assume "indexOf w (js ''VP8'') 12 = - 1"
  then show "extractKeyframeFromWebP w = Inl BadWebP"
    by (simp add: extractKeyframeFromWebP_def)
next
  fix c assume c: "indexOf w (js ''VP8'') 12 = int c"
  show "extractKeyframeFromWebP w = chunk_scan w c"
    using extract_from_index [OF assms c] .
  from indexOf_VP8_cases [of w] c
  show "12 \<le> c" "take 3 (drop c w) = js ''VP8''" by auto
  fix k assume "12 \<le> k \<and> k < c"
  with indexOf_VP8_cases [of w] c show "take 3 (drop k w) \<noteq> js ''VP8''" by auto
next
  assume at12: "take 3 (drop 12 w) = js ''VP8''"
  from indexOf_VP8_cases [of w] at12
  obtain c where c: "indexOf w (js ''VP8'') 12 = int c" "12 \<le> c"
    "\<forall>k. 12 \<le> k \<and> k < c \<longrightarrow> take 3 (drop k w) \<noteq> js ''VP8''"
    by auto
  have "c = 12"
  proof (rule ccontr)
    assume "c \<noteq> 12"
    then have "12 < c" using c(2) by simp
    then show False using c(3) at12 by auto
  qed
  then show "extractKeyframeFromWebP w = chunk_scan w 12"
    using extract_from_index [OF assms c(1)] by simp
next
  assume "\<forall>k \<ge> 12. take 3 (drop k w) \<noteq> js ''VP8''"
  with indexOf_VP8_cases [of w] have "indexOf w (js ''VP8'') 12 = - 1"
    by auto
  then show "extractKeyframeFromWebP w = Inl BadWebP"
    by (simp add: extractKeyframeFromWebP_def)
qed

theorem webp_scan_witness:
  "extractKeyframeFromWebP
     (js ''RIFF'' @ [16, 0, 0, 0] @ js ''WEBPVP8 '' @ [3, 0, 0, 0] @ js ''abc'' @ [0])
     = chunk_scan (js ''RIFF'' @ [16, 0, 0, 0] @ js ''WEBPVP8 '' @ [3, 0, 0, 0] @ js ''abc'' @ [0]) 12 \<and>
   chunk_scan (js ''RIFF'' @ [16, 0, 0, 0] @ js ''WEBPVP8 '' @ [3, 0, 0, 0] @ js ''abc'' @ [0]) 12
     = Inr \<lparr>k_frame = js ''abc'', k_hasAlpha = False\<rparr> \<and>
   indexOf (js ''RIFF'' @ [16, 0, 0, 0] @ js ''WEBPVP8 '' @ [3, 0, 0, 0] @ js ''abc'' @ [0])
     (js ''VP8'') 12 = 12"
proof -
  let ?w = "js ''RIFF'' @ [16, 0, 0, 0] @ js ''WEBPVP8 '' @ [3, 0, 0, 0] @ js ''abc'' @ [0]"
  have b: "\<forall>x\<in>set ?w. x < 256"
    by (simp add: js_def)
  have v: "take 3 (drop 12 ?w) = js ''VP8''"
    by (simp add: js_def)
  from webp_scan [OF b] v have "extractKeyframeFromWebP ?w = chunk_scan ?w 12"
    by blast
  moreover have "chunk_scan ?w 12 = Inr \<lparr>k_frame = js ''abc'', k_hasAlpha = False\<rparr>"
    by (simp add: chunk_scan_def first_vp8_def riff_chunks_step riff_chunks_end js_def le_u32_def)
  moreover have "indexOf ?w (js ''VP8'') 12 = 12"
    by code_simp
  ultimately show ?thesis by simp
qed

section \<open>Properties of the serializer\<close>

lemma length_write_at: "p + length ys \<le> length xs \<Longrightarrow> length (write_at xs p ys) = length xs"
  by (simp add: write_at_def)

lemma take_write_at: "p \<le> length xs \<Longrightarrow> q \<le> p \<Longrightarrow> take q (write_at xs p ys) = take q xs"
  by (simp add: write_at_def min_def)

lemma written_write_at:
  "p \<le> length xs \<Longrightarrow> take (length ys) (drop p (write_at xs p ys)) = ys"
  by (simp add: write_at_def)

lemma drop_write_at:
  "p + length ys \<le> length xs \<Longrightarrow> p + length ys \<le> q \<Longrightarrow> drop q (write_at xs p ys) = drop q xs"
  by (simp add: write_at_def)

lemma writeBytes_Inr:
  assumes "writeBytes bs s = Inr s'"
  shows "ds_pos s + length bs \<le> length (ds_data s)"
    and "ds_pos s' = ds_pos s + length bs"
    and "ds_data s' = write_at (ds_data s) (ds_pos s) bs"
  using assms by (auto simp: writeBytes_def split: if_splits)

lemma writeBytes_extends: "writeBytes bs s = Inr s' \<Longrightarrow> extends s s'"
  by (auto simp: writeBytes_def extends_def length_write_at take_write_at split: if_splits)

lemma extends_refl: "extends b b"
  by (simp add: extends_def)

lemma extends_trans: "extends a b \<Longrightarrow> extends b c \<Longrightarrow> extends a c"
proof -
  assume ab: "extends a b" and bc: "extends b c"
  have le: "ds_pos a \<le> ds_pos b" using ab by (simp add: extends_def)
  have "take (ds_pos a) (ds_data c) = take (ds_pos a) (take (ds_pos b) (ds_data c))"
    using le by (simp add: min_def)
  also have "\<dots> = take (ds_pos a) (take (ds_pos b) (ds_data b))"
    using bc by (simp add: extends_def)
  also have "\<dots> = take (ds_pos a) (ds_data b)"
    using le by (simp add: min_def)
  also have "\<dots> = take (ds_pos a) (ds_data a)"
    using ab by (simp add: extends_def)
  finally show ?thesis
    using ab bc by (simp add: extends_def)
qed

lemma writers_extend:
  "writeByte x s = Inr s' \<Longrightarrow> extends s s'"
  "writeString str s = Inr s' \<Longrightarrow> extends s s'"
  "writeUnsignedIntBE n wo s = Inr s' \<Longrightarrow> extends s s'"
  "writeDoubleBE d s = Inr s' \<Longrightarrow> extends s s'"
  "writeFloatBE f s = Inr s' \<Longrightarrow> extends s s'"
  "writeEBMLVarIntWidth n w s = Inr s' \<Longrightarrow> extends s s'"
  "writeEBMLVarInt n s = Inr s' \<Longrightarrow> extends s s'"
  by (auto simp: writeByte_def writeString_def writeUnsignedIntBE_def writeDoubleBE_def
        writeFloatBE_def writeEBMLVarIntWidth_def writeEBMLVarInt_def
      intro: writeBytes_extends split: option.splits)

lemma writeEBML_children_Inr:
  assumes "writeEBML buffer off (Element eid esize (DArray children) o1 o2) = Inr (buffer', node')"
  obtains b1 b2 b3 children' where
    "eid \<noteq> 0"
    "writeUnsignedIntBE eid None buffer = Inr b1"
    "(if esize = EBML_SIZE_UNKNOWN then writeByte 0xFF b1
      else if esize = EBML_SIZE_UNKNOWN_5_BYTES then writeBytes [0x0F, 0xFF, 0xFF, 0xFF, 0xFF] b1
      else writeBytes [0, 0, 0, 0] b1) = Inr b2"
    "writeEBML_array b2 off children = Inr (b3, children')"
    "esize = EBML_SIZE_UNKNOWN \<or> esize = EBML_SIZE_UNKNOWN_5_BYTES \<Longrightarrow>
       buffer' = b3 \<and>
       node' = Element eid esize (DArray children') (Some (ds_pos buffer + off)) (Some (ds_pos b2 + off))"
    "esize \<noteq> EBML_SIZE_UNKNOWN \<Longrightarrow> esize \<noteq> EBML_SIZE_UNKNOWN_5_BYTES \<Longrightarrow>
       \<exists>b4 b5. ds_seek (ds_pos b1) b3 = Inr b4 \<and>
               writeEBMLVarIntWidth (ds_pos b3 - ds_pos b2) 4 b4 = Inr b5 \<and>
               ds_seek (ds_pos b3) b5 = Inr buffer' \<and>
               node' = Element eid (SizeNum (ds_pos b3 - ds_pos b2)) (DArray children')
                         (Some (ds_pos buffer + off)) (Some (ds_pos b2 + off))"
  using assms
  by (simp add: Let_def split: sum.splits if_splits prod.splits)


lemma placeholder_extends:
  assumes "(if esize = EBML_SIZE_UNKNOWN then writeByte 0xFF b1
      else if esize = EBML_SIZE_UNKNOWN_5_BYTES then writeBytes [0x0F, 0xFF, 0xFF, 0xFF, 0xFF] b1
      else writeBytes [0, 0, 0, 0] b1) = Inr b2"
  shows "extends b1 b2"
  using assms by (auto split: if_splits intro: writers_extend writeBytes_extends)

lemma patch_extends:
  assumes "ds_seek sizePos b3 = Inr b4" "writeEBMLVarIntWidth n 4 b4 = Inr b5"
    "ds_seek (ds_pos b3) b5 = Inr b6" "p \<le> sizePos"
  shows "ds_pos b6 = ds_pos b3" "length (ds_data b6) = length (ds_data b3)"
    "take p (ds_data b6) = take p (ds_data b3)"
    "ds_data b6 = write_at (ds_data b3) sizePos (ebml_varint_bytes n 4)"
    "sizePos + length (ebml_varint_bytes n 4) \<le> length (ds_data b3)"
proof -
  have b4: "b4 = b3\<lparr>ds_pos := sizePos\<rparr>"
    using assms(1) by (auto simp: ds_seek_def split: if_splits)
  have w: "writeBytes (ebml_varint_bytes n 4) b4 = Inr b5"
    using assms(2) by (simp add: writeEBMLVarIntWidth_def)
  from writeBytes_Inr [OF w] b4
  have fit: "sizePos + length (ebml_varint_bytes n 4) \<le> length (ds_data b3)"
    and d5: "ds_data b5 = write_at (ds_data b3) sizePos (ebml_varint_bytes n 4)"
    by simp_all
  have b6: "b6 = b5\<lparr>ds_pos := ds_pos b3\<rparr>"
    using assms(3) by (auto simp: ds_seek_def split: if_splits)
  show "ds_pos b6 = ds_pos b3" using b6 by simp
  show "ds_data b6 = write_at (ds_data b3) sizePos (ebml_varint_bytes n 4)"
    using b6 d5 by simp
  then show "length (ds_data b6) = length (ds_data b3)"
    using fit by (simp add: length_write_at)
  show "take p (ds_data b6) = take p (ds_data b3)"
    using b6 d5 fit assms(4) by (simp add: take_write_at)
  show "sizePos + length (ebml_varint_bytes n 4) \<le> length (ds_data b3)" by fact
qed

lemma writeEBML_extends:
  "writeEBML buffer off x = Inr (b', x') \<Longrightarrow> extends buffer b'"
  "writeEBML_array buffer off xs = Inr (b', xs') \<Longrightarrow> extends buffer b'"
proof (induction buffer off x and buffer off xs arbitrary: b' x' and b' xs'
       rule: writeEBML_writeEBML_array.induct)
  case (1 buffer bufferFileOffset xs)
  then show ?case by (auto split: sum.splits)
next
  case (2 buffer bufferFileOffset s)
  then show ?case by (auto split: sum.splits intro: writers_extend)
next
  case (3 buffer bufferFileOffset bs)
  then show ?case by (auto split: sum.splits intro: writeBytes_extends)
next
  case (4 buffer bufferFileOffset)
  then show ?case by simp
next
  case (5 buffer bufferFileOffset eid esize dat off doff)
  show ?case
  proof (cases dat)
    case (DArray children)
    from "5.prems" [unfolded DArray]
    obtain b1 b2 b3 children' where st:
      "eid \<noteq> 0"
      "writeUnsignedIntBE eid None buffer = Inr b1"
      "(if esize = EBML_SIZE_UNKNOWN then writeByte 0xFF b1
        else if esize = EBML_SIZE_UNKNOWN_5_BYTES then writeBytes [0x0F, 0xFF, 0xFF, 0xFF, 0xFF] b1
        else writeBytes [0, 0, 0, 0] b1) = Inr b2"
      "writeEBML_array b2 bufferFileOffset children = Inr (b3, children')"
      "esize = EBML_SIZE_UNKNOWN \<or> esize = EBML_SIZE_UNKNOWN_5_BYTES \<Longrightarrow> b' = b3"
      "esize \<noteq> EBML_SIZE_UNKNOWN \<Longrightarrow> esize \<noteq> EBML_SIZE_UNKNOWN_5_BYTES \<Longrightarrow>
         \<exists>b4 b5. ds_seek (ds_pos b1) b3 = Inr b4 \<and>
               writeEBMLVarIntWidth (ds_pos b3 - ds_pos b2) 4 b4 = Inr b5 \<and>
               ds_seek (ds_pos b3) b5 = Inr b'"
      by (rule writeEBML_children_Inr) blast
    have e1: "extends buffer b1" using st(2) by (rule writers_extend)
    have e2: "extends b1 b2" using st(3) by (rule placeholder_extends)
    have e3: "extends b2 b3"
      using "5.IH" [OF st(1) refl st(2) DArray st(3) refl refl st(4)] .
    have e13: "extends buffer b3"
      using e1 e2 e3 by (blast intro: extends_trans)
    show ?thesis
    proof (cases "esize = EBML_SIZE_UNKNOWN \<or> esize = EBML_SIZE_UNKNOWN_5_BYTES")
      case True
      then show ?thesis using st(5) e13 by simp
    next
      case False
      then obtain b4 b5 where p: "ds_seek (ds_pos b1) b3 = Inr b4"
        "writeEBMLVarIntWidth (ds_pos b3 - ds_pos b2) 4 b4 = Inr b5"
        "ds_seek (ds_pos b3) b5 = Inr b'"
        using st(6) by blast
      have le: "ds_pos buffer \<le> ds_pos b1" using e1 by (simp add: extends_def)
      from patch_extends [OF p le] e13 show ?thesis
        by (simp add: extends_def)
    qed
  next
    case (DString' s)
    with "5.prems" show ?thesis
      by (auto simp: Let_def split: sum.splits if_splits)
         (meson writers_extend extends_trans)+
  next
    case (DNumber n)
    with "5.prems" show ?thesis
      by (auto simp: Let_def split: sum.splits if_splits ebml_size.splits)
         (meson writers_extend extends_trans)+
  next
    case (DFloat64 v)
    with "5.prems" show ?thesis
      by (auto simp: Let_def split: sum.splits if_splits)
         (meson writers_extend extends_trans)+
  next
    case (DFloat32 v)
    with "5.prems" show ?thesis
      by (auto simp: Let_def split: sum.splits if_splits)
         (meson writers_extend extends_trans)+
  next
    case (DBytes bs)
    with "5.prems" show ?thesis
      by (auto simp: Let_def split: sum.splits if_splits)
         (meson writers_extend writeBytes_extends extends_trans)+
  next
    case DOther
    with "5.prems" show ?thesis
      by (auto simp: Let_def split: sum.splits if_splits)
  qed
next
  case (6 buffer bufferFileOffset)
  then show ?case by (simp add: extends_refl)
next
  case (7 buffer bufferFileOffset x xs)
  from "7.prems" obtain b1 x1 xs1 where
    s1: "writeEBML buffer bufferFileOffset x = Inr (b1, x1)" and
    s2: "writeEBML_array b1 bufferFileOffset xs = Inr (b', xs1)"
    by (auto split: sum.splits)
  have "extends buffer b1" using "7.IH"(1) [OF s1] .
  moreover have "extends b1 b'" using "7.IH"(2) [OF s1 refl s2] .
  ultimately show ?case by (rule extends_trans)
qed

lemma length_uint_be_bytes [simp]: "length (uint_be_bytes n w) = w"
  by (simp add: uint_be_bytes_def)

lemma length_ebml_varint_bytes [simp]: "length (ebml_varint_bytes n w) = w"
  by (simp add: ebml_varint_bytes_def)

lemma uint_be_bytes_Suc:
  "uint_be_bytes m (Suc w) = uint_be_bytes (m div 256) w @ [of_nat m]"
proof -
  have "m div 256 ^ (w - i) = m div 256 div 256 ^ (w - 1 - i)" if "i < w" for i
  proof -
    have "w - i = Suc (w - 1 - i)" using that by simp
    then show ?thesis by (simp add: div_mult2_eq)
  qed
  then show ?thesis
    by (simp add: uint_be_bytes_def)
qed

lemma be_value_snoc: "be_value (bs @ [b]) = be_value bs * 256 + unat b"
  by (simp add: be_value_def)

lemma be_value_uint_be_bytes: "be_value (uint_be_bytes m w) = m mod 256 ^ w"
proof (induction w arbitrary: m)
  case 0
  then show ?case by (simp add: uint_be_bytes_def be_value_def)
next
  case (Suc w)
  have "be_value (uint_be_bytes m (Suc w)) = (m div 256) mod 256 ^ w * 256 + m mod 256"
    by (simp add: uint_be_bytes_Suc be_value_snoc Suc.IH unat_of_nat)
  also have "\<dots> = m mod 256 ^ Suc w"
    by (simp add: mod_mult2_eq)
  finally show ?case .
qed

lemma decode_ebml_varint:
  assumes "n < 2 ^ (7 * w)" "1 \<le> w"
  shows "decode_varint w (ebml_varint_bytes n w) = Some n"
proof -
  let ?m = "2 ^ (7 * w) + n mod 2 ^ (7 * w)"
  have m: "?m = 2 ^ (7 * w) + n"
    using assms(1) by simp
  have "?m < 2 * 2 ^ (7 * w)"
    using assms(1) by simp
  also have "\<dots> = (2::nat) ^ (7 * w + 1)"
    by simp
  also have "\<dots> \<le> 2 ^ (8 * w)"
    using assms(2) by (intro power_increasing) simp_all
  also have "\<dots> = (256::nat) ^ w"
    by (simp add: power_mult)
  finally have lt: "?m < 256 ^ w" .
  have bv: "be_value (ebml_varint_bytes n w) = 2 ^ (7 * w) + n"
    using lt m by (simp add: ebml_varint_bytes_def be_value_uint_be_bytes)
  have dm: "(a + n) div a = 1 \<and> (a + n) mod a = n" if "n < a" for a :: nat
  proof -
    have "0 < a" using that by simp
    then have "(a + n) div a = n div a + 1"
      by (metis add.commute div_add_self1 less_numeral_extra(3))
    then show ?thesis using that by simp
  qed
  have "(2 ^ (7 * w) + n) div 2 ^ (7 * w) = 1"
    using dm [OF assms(1)] by blast
  moreover have "(2 ^ (7 * w) + n) mod 2 ^ (7 * w) = n"
    using dm [OF assms(1)] by blast
  ultimately show ?thesis
    by (simp add: decode_varint_def bv)
qed

lemma writeBytes_result:
  "writeBytes bs s = Inr s' \<Longrightarrow>
     s' = \<lparr>ds_data = write_at (ds_data s) (ds_pos s) bs, ds_pos = ds_pos s + length bs\<rparr>"
  by (auto simp: writeBytes_def split: if_splits)

lemma header_written:
  assumes "writeUnsignedIntBE eid None buffer = Inr b1"
    "(if esize = EBML_SIZE_UNKNOWN then writeByte 0xFF b1
      else if esize = EBML_SIZE_UNKNOWN_5_BYTES then writeBytes [0x0F, 0xFF, 0xFF, 0xFF, 0xFF] b1
      else writeBytes [0, 0, 0, 0] b1) = Inr b2"
  shows "b2 = after_header buffer eid esize"
    and "ds_pos b1 = ds_pos buffer + measureUnsignedInt eid"
    and "ds_pos b2 \<le> length (ds_data buffer)"
proof -
  have w1: "writeBytes (uint_be_bytes eid (measureUnsignedInt eid)) buffer = Inr b1"
    using assms(1) by (simp add: writeUnsignedIntBE_def)
  have w2: "writeBytes (size_placeholder esize) b1 = Inr b2"
    using assms(2) by (cases esize) (simp_all add: writeByte_def)
  note r1 = writeBytes_result [OF w1] and r2 = writeBytes_result [OF w2]
  show "b2 = after_header buffer eid esize"
    using r1 r2 by (simp add: after_header_def Let_def)
  show "ds_pos b1 = ds_pos buffer + measureUnsignedInt eid"
    using r1 by simp
  have "length (ds_data b1) = length (ds_data buffer)"
    using writeBytes_extends [OF w1] by (simp add: extends_def)
  then show "ds_pos b2 \<le> length (ds_data buffer)"
    using writeBytes_Inr(1,2) [OF w2] by simp
qed

lemma element_children:
  assumes "writeEBML buffer off (Element eid esize (DArray children) o1 o2) = Inr (buffer', node')"
  obtains b3 children' where
    "writeEBML_array (after_header buffer eid esize) off children = Inr (b3, children')"
    "node' = Element eid
        (if esize = EBML_SIZE_UNKNOWN \<or> esize = EBML_SIZE_UNKNOWN_5_BYTES then esize
         else SizeNum (ds_pos b3 - ds_pos (after_header buffer eid esize)))
        (DArray children') (Some (ds_pos buffer + off))
        (Some (ds_pos (after_header buffer eid esize) + off))"
    "ds_pos buffer' = ds_pos b3"
    "ds_data buffer' =
       (if esize = EBML_SIZE_UNKNOWN \<or> esize = EBML_SIZE_UNKNOWN_5_BYTES then ds_data b3
        else write_at (ds_data b3) (ds_pos buffer + measureUnsignedInt eid)
               (ebml_varint_bytes (ds_pos b3 - ds_pos (after_header buffer eid esize)) 4))"
    "ds_pos (after_header buffer eid esize) \<le> length (ds_data buffer)"
    "eid \<noteq> 0"
proof -
  from assms obtain b1 b2 b3 children' where st:
    "eid \<noteq> 0"
    "writeUnsignedIntBE eid None buffer = Inr b1"
    "(if esize = EBML_SIZE_UNKNOWN then writeByte 0xFF b1
      else if esize = EBML_SIZE_UNKNOWN_5_BYTES then writeBytes [0x0F, 0xFF, 0xFF, 0xFF, 0xFF] b1
      else writeBytes [0, 0, 0, 0] b1) = Inr b2"
    "writeEBML_array b2 off children = Inr (b3, children')"
    "esize = EBML_SIZE_UNKNOWN \<or> esize = EBML_SIZE_UNKNOWN_5_BYTES \<Longrightarrow>
       buffer' = b3 \<and>
       node' = Element eid esize (DArray children') (Some (ds_pos buffer + off)) (Some (ds_pos b2 + off))"
    "esize \<noteq> EBML_SIZE_UNKNOWN \<Longrightarrow> esize \<noteq> EBML_SIZE_UNKNOWN_5_BYTES \<Longrightarrow>
       \<exists>b4 b5. ds_seek (ds_pos b1) b3 = Inr b4 \<and>
               writeEBMLVarIntWidth (ds_pos b3 - ds_pos b2) 4 b4 = Inr b5 \<and>
               ds_seek (ds_pos b3) b5 = Inr buffer' \<and>
               node' = Element eid (SizeNum (ds_pos b3 - ds_pos b2)) (DArray children')
                         (Some (ds_pos buffer + off)) (Some (ds_pos b2 + off))"
    by (rule writeEBML_children_Inr) blast
  note h = header_written [OF st(2,3)]
  show ?thesis
  proof (cases "esize = EBML_SIZE_UNKNOWN \<or> esize = EBML_SIZE_UNKNOWN_5_BYTES")
    case True
    show ?thesis
      using that [of b3 children'] st(1,4) st(5) [OF True] h True by simp
  next
    case False
    then obtain b4 b5 where p: "ds_seek (ds_pos b1) b3 = Inr b4"
        "writeEBMLVarIntWidth (ds_pos b3 - ds_pos b2) 4 b4 = Inr b5"
        "ds_seek (ds_pos b3) b5 = Inr buffer'"
        "node' = Element eid (SizeNum (ds_pos b3 - ds_pos b2)) (DArray children')
                         (Some (ds_pos buffer + off)) (Some (ds_pos b2 + off))"
      using st(6) by blast
    note pe = patch_extends [OF p(1,2,3) order_refl]
    show ?thesis
      using that [of b3 children'] st(1,4) p(4) pe(1,4) h False by simp
  qed
qed

lemma extends_keeps:
  assumes "extends s s'" "q + k \<le> ds_pos s"
  shows "take k (drop q (ds_data s')) = take k (drop q (ds_data s))"
proof -
  have "take (q + k) (ds_data s') = take (q + k) (take (ds_pos s) (ds_data s'))"
    using assms(2) by (simp add: min_def)
  also have "\<dots> = take (q + k) (take (ds_pos s) (ds_data s))"
    using assms(1) by (simp add: extends_def)
  also have "\<dots> = take (q + k) (ds_data s)"
    using assms(2) by (simp add: min_def)
  finally have "drop q (take (q + k) (ds_data s')) = drop q (take (q + k) (ds_data s))"
    by simp
  then show ?thesis
    by (simp add: drop_take)
qed

lemma writeBytes_written:
  assumes "writeBytes bs s = Inr s'"
  shows "take (length bs) (drop (ds_pos s) (ds_data s')) = bs"
  using writeBytes_Inr [OF assms] by (simp add: written_write_at)

lemma leaf_chain:
  assumes "writeBytes a s = Inr s1" "writeBytes b s1 = Inr s2" "writeBytes c s2 = Inr s3"
  shows "ds_pos s2 = ds_pos s + length a + length b"
    and "ds_pos s3 = ds_pos s + length a + length b + length c"
    and "take (length a) (drop (ds_pos s) (ds_data s3)) = a"
    and "take (length b) (drop (ds_pos s + length a) (ds_data s3)) = b"
    and "take (length c) (drop (ds_pos s + length a + length b) (ds_data s3)) = c"
proof -
  note p1 = writeBytes_Inr(2) [OF assms(1)] and p2 = writeBytes_Inr(2) [OF assms(2)]
    and p3 = writeBytes_Inr(2) [OF assms(3)]
  note e2 = writeBytes_extends [OF assms(2)] and e3 = writeBytes_extends [OF assms(3)]
  show "ds_pos s2 = ds_pos s + length a + length b" using p1 p2 by simp
  show "ds_pos s3 = ds_pos s + length a + length b + length c" using p1 p2 p3 by simp
  have "take (length a) (drop (ds_pos s) (ds_data s3)) = take (length a) (drop (ds_pos s) (ds_data s1))"
    using extends_keeps [OF extends_trans [OF e2 e3], of "ds_pos s" "length a"] p1 by simp
  then show "take (length a) (drop (ds_pos s) (ds_data s3)) = a"
    using writeBytes_written [OF assms(1)] by simp
  have "take (length b) (drop (ds_pos s1) (ds_data s3)) = take (length b) (drop (ds_pos s1) (ds_data s2))"
    using extends_keeps [OF e3, of "ds_pos s1" "length b"] p2 by simp
  then show "take (length b) (drop (ds_pos s + length a) (ds_data s3)) = b"
    using writeBytes_written [OF assms(2)] p1 by simp
  show "take (length c) (drop (ds_pos s + length a + length b) (ds_data s3)) = c"
    using writeBytes_written [OF assms(3)] p1 p2 by simp
qed

lemma leaf_unfold:
  assumes "writeEBML buffer off (Element eid esize dat o1 o2) = Inr (buffer', node')"
    and "\<forall>xs. dat \<noteq> DArray xs"
  obtains b1 b2 sw where
    "writeBytes (uint_be_bytes eid (measureUnsignedInt eid)) buffer = Inr b1"
    "measureEBMLVarInt (size_field_value esize dat) = Some sw"
    "writeBytes (ebml_varint_bytes (size_field_value esize dat) sw) b1 = Inr b2"
    "writeBytes (payload_bytes esize dat) b2 = Inr buffer'"
    "el_offset node' = Some (ds_pos buffer + off)"
    "el_dataOffset node' = Some (ds_pos b2 + off)"
    "el_data node' = dat" "el_id node' = eid"
proof (cases dat)
  case (DArray xs)
  with assms(2) show ?thesis by simp
next
  case (DString' s)
  with assms(1) that show ?thesis
    by (auto simp: Let_def writeUnsignedIntBE_def writeEBMLVarInt_def writeEBMLVarIntWidth_def
          writeString_def split: sum.splits if_splits option.splits)
next
  case (DNumber n)
  with assms(1) that show ?thesis
    by (cases esize)
       (auto simp: Let_def writeUnsignedIntBE_def writeEBMLVarInt_def writeEBMLVarIntWidth_def
          split: sum.splits if_splits option.splits)
next
  case (DFloat64 v)
  with assms(1) that show ?thesis
    by (auto simp: Let_def writeUnsignedIntBE_def writeEBMLVarInt_def writeEBMLVarIntWidth_def
          writeDoubleBE_def split: sum.splits if_splits option.splits)
next
  case (DFloat32 v)
  with assms(1) that show ?thesis
    by (auto simp: Let_def writeUnsignedIntBE_def writeEBMLVarInt_def writeEBMLVarIntWidth_def
          writeFloatBE_def split: sum.splits if_splits option.splits)
next
  case (DBytes bs)
  with assms(1) that show ?thesis
    by (auto simp: Let_def writeUnsignedIntBE_def writeEBMLVarInt_def writeEBMLVarIntWidth_def
          split: sum.splits if_splits option.splits)
next
  case DOther
  with assms(1) show ?thesis
    by (auto simp: Let_def split: sum.splits if_splits)
qed

lemma write_at_keeps_before:
  assumes "q + k \<le> p" "p \<le> length xs"
  shows "take k (drop q (write_at xs p ys)) = take k (drop q xs)"
proof -
  have "take (q + k) (write_at xs p ys) = take (q + k) xs"
    using assms by (simp add: take_write_at)
  then have "drop q (take (q + k) (write_at xs p ys)) = drop q (take (q + k) xs)"
    by simp
  then show ?thesis by (simp add: drop_take)
qed

lemma after_header_bytes:
  assumes "ds_pos (after_header buffer eid esize) \<le> length (ds_data buffer)"
  shows "take (measureUnsignedInt eid) (drop (ds_pos buffer) (ds_data (after_header buffer eid esize)))
           = uint_be_bytes eid (measureUnsignedInt eid)"
    and "take (length (size_placeholder esize))
           (drop (ds_pos buffer + measureUnsignedInt eid) (ds_data (after_header buffer eid esize)))
           = size_placeholder esize"
    and "ds_pos (after_header buffer eid esize)
           = ds_pos buffer + measureUnsignedInt eid + length (size_placeholder esize)"
    and "length (ds_data (after_header buffer eid esize)) = length (ds_data buffer)"
proof -
  let ?p = "ds_pos buffer" and ?idb = "uint_be_bytes eid (measureUnsignedInt eid)"
  let ?ph = "size_placeholder esize" and ?xs = "ds_data buffer"
  have fit: "?p + measureUnsignedInt eid + length ?ph \<le> length ?xs"
    using assms by (simp add: after_header_def Let_def)
  have d: "ds_data (after_header buffer eid esize)
        = write_at (write_at ?xs ?p ?idb) (?p + measureUnsignedInt eid) ?ph"
    by (simp add: after_header_def Let_def)
  have l1: "length (write_at ?xs ?p ?idb) = length ?xs"
    using fit by (simp add: length_write_at)
  show "take (measureUnsignedInt eid) (drop ?p (ds_data (after_header buffer eid esize))) = ?idb"
    unfolding d using fit l1 written_write_at [of ?p ?xs ?idb]
    by (simp add: write_at_keeps_before)
  show "take (length ?ph) (drop (?p + measureUnsignedInt eid) (ds_data (after_header buffer eid esize))) = ?ph"
    unfolding d using fit l1 by (simp add: written_write_at)
  show "ds_pos (after_header buffer eid esize) = ?p + measureUnsignedInt eid + length ?ph"
    by (simp add: after_header_def Let_def)
  show "length (ds_data (after_header buffer eid esize)) = length ?xs"
    unfolding d using fit l1 by (simp add: length_write_at)
qed

lemma children_written:
  assumes "writeEBML buffer off (Element eid esize (DArray children) o1 o2) = Inr (buffer', node')"
  defines "sizePos \<equiv> ds_pos buffer + measureUnsignedInt eid"
  defines "dataBegin \<equiv> ds_pos buffer + measureUnsignedInt eid + length (size_placeholder esize)"
  shows "el_offset node' = Some (ds_pos buffer + off)"
    and "take (measureUnsignedInt eid) (drop (ds_pos buffer) (ds_data buffer'))
           = uint_be_bytes eid (measureUnsignedInt eid)"
    and "el_dataOffset node' = Some (dataBegin + off)"
    and "\<exists>b3 children'.
           writeEBML_array (after_header buffer eid esize) off children = Inr (b3, children') \<and>
           el_data node' = DArray children' \<and> ds_pos buffer' = ds_pos b3 \<and>
           drop dataBegin (ds_data buffer') = drop dataBegin (ds_data b3)"
    and "esize = EBML_SIZE_UNKNOWN \<or> esize = EBML_SIZE_UNKNOWN_5_BYTES \<Longrightarrow>
           el_size node' = esize \<and>
           take (length (size_placeholder esize)) (drop sizePos (ds_data buffer')) = size_placeholder esize"
    and "esize \<noteq> EBML_SIZE_UNKNOWN \<Longrightarrow> esize \<noteq> EBML_SIZE_UNKNOWN_5_BYTES \<Longrightarrow>
           el_size node' = SizeNum (ds_pos buffer' - dataBegin) \<and>
           take 4 (drop sizePos (ds_data buffer')) = ebml_varint_bytes (ds_pos buffer' - dataBegin) 4"
    and "dataBegin \<le> ds_pos buffer'"
    and "el_id node' = eid"
proof -
  let ?ah = "after_header buffer eid esize"
  let ?ph = "size_placeholder esize"
  from assms(1) obtain b3 children' where c:
    "writeEBML_array ?ah off children = Inr (b3, children')"
    "node' = Element eid
        (if esize = EBML_SIZE_UNKNOWN \<or> esize = EBML_SIZE_UNKNOWN_5_BYTES then esize
         else SizeNum (ds_pos b3 - ds_pos ?ah))
        (DArray children') (Some (ds_pos buffer + off)) (Some (ds_pos ?ah + off))"
    "ds_pos buffer' = ds_pos b3"
    "ds_data buffer' =
       (if esize = EBML_SIZE_UNKNOWN \<or> esize = EBML_SIZE_UNKNOWN_5_BYTES then ds_data b3
        else write_at (ds_data b3) (ds_pos buffer + measureUnsignedInt eid)
               (ebml_varint_bytes (ds_pos b3 - ds_pos ?ah) 4))"
    "ds_pos ?ah \<le> length (ds_data buffer)"
    by (rule element_children) blast
  note ah = after_header_bytes [OF c(5)]
  have pah: "ds_pos ?ah = dataBegin"
    using ah(3) by (simp add: dataBegin_def)
  have e: "extends ?ah b3" using c(1) by (rule writeEBML_extends)
  have len3: "length (ds_data b3) = length (ds_data buffer)"
    using e ah(4) by (simp add: extends_def)
  have id3: "take (measureUnsignedInt eid) (drop (ds_pos buffer) (ds_data b3))
               = uint_be_bytes eid (measureUnsignedInt eid)"
    using extends_keeps [OF e, of "ds_pos buffer" "measureUnsignedInt eid"] ah(1,3) by simp
  have ph3: "take (length ?ph) (drop sizePos (ds_data b3)) = ?ph"
    using extends_keeps [OF e, of sizePos "length ?ph"] ah(2,3) by (simp add: sizePos_def)
  show "el_offset node' = Some (ds_pos buffer + off)" using c(2) by simp
  show "el_id node' = eid" using c(2) by simp
  show "el_dataOffset node' = Some (dataBegin + off)" using c(2) pah by simp
  show "dataBegin \<le> ds_pos buffer'"
    using e pah c(3) by (simp add: extends_def)
  show "esize = EBML_SIZE_UNKNOWN \<or> esize = EBML_SIZE_UNKNOWN_5_BYTES \<Longrightarrow>
           el_size node' = esize \<and>
           take (length (size_placeholder esize)) (drop sizePos (ds_data buffer')) = size_placeholder esize"
    using c(2,4) ph3 by simp
  have fit: "sizePos + 4 \<le> length (ds_data b3)"
    if "esize \<noteq> EBML_SIZE_UNKNOWN" "esize \<noteq> EBML_SIZE_UNKNOWN_5_BYTES"
  proof -
    have "length ?ph = 4" using that by (cases esize) simp_all
    then show ?thesis using c(5) ah(3) len3 by (simp add: sizePos_def)
  qed
  have d': "ds_data buffer' = write_at (ds_data b3) sizePos (ebml_varint_bytes (ds_pos b3 - dataBegin) 4)"
    if "esize \<noteq> EBML_SIZE_UNKNOWN" "esize \<noteq> EBML_SIZE_UNKNOWN_5_BYTES"
    using c(4) that pah by (simp add: sizePos_def)
  show "esize \<noteq> EBML_SIZE_UNKNOWN \<Longrightarrow> esize \<noteq> EBML_SIZE_UNKNOWN_5_BYTES \<Longrightarrow>
           el_size node' = SizeNum (ds_pos buffer' - dataBegin) \<and>
           take 4 (drop sizePos (ds_data buffer')) = ebml_varint_bytes (ds_pos buffer' - dataBegin) 4"
  proof -
    assume ns: "esize \<noteq> EBML_SIZE_UNKNOWN" "esize \<noteq> EBML_SIZE_UNKNOWN_5_BYTES"
    have "take 4 (drop sizePos (ds_data buffer')) = ebml_varint_bytes (ds_pos b3 - dataBegin) 4"
      unfolding d' [OF ns]
      using fit [OF ns] written_write_at [of sizePos "ds_data b3" "ebml_varint_bytes (ds_pos b3 - dataBegin) 4"]
      by simp
    then show ?thesis using c(2,3) ns pah by simp
  qed
  show "take (measureUnsignedInt eid) (drop (ds_pos buffer) (ds_data buffer'))
           = uint_be_bytes eid (measureUnsignedInt eid)"
  proof (cases "esize = EBML_SIZE_UNKNOWN \<or> esize = EBML_SIZE_UNKNOWN_5_BYTES")
    case True
    then show ?thesis using c(4) id3 by simp
  next
    case False
    then have ns: "esize \<noteq> EBML_SIZE_UNKNOWN" "esize \<noteq> EBML_SIZE_UNKNOWN_5_BYTES" by simp_all
    show ?thesis
      unfolding d' [OF ns] using fit [OF ns] id3 by (simp add: write_at_keeps_before sizePos_def)
  qed
  have "drop dataBegin (ds_data buffer') = drop dataBegin (ds_data b3)"
  proof (cases "esize = EBML_SIZE_UNKNOWN \<or> esize = EBML_SIZE_UNKNOWN_5_BYTES")
    case True
    then show ?thesis using c(4) by simp
  next
    case False
    then have ns: "esize \<noteq> EBML_SIZE_UNKNOWN" "esize \<noteq> EBML_SIZE_UNKNOWN_5_BYTES" by simp_all
    have "length ?ph = 4" using ns by (cases esize) simp_all
    then have "dataBegin = sizePos + 4" by (simp add: dataBegin_def sizePos_def)
    then show ?thesis
      unfolding d' [OF ns] using fit [OF ns] by (simp add: drop_write_at)
  qed
  then show "\<exists>b3 children'.
           writeEBML_array (after_header buffer eid esize) off children = Inr (b3, children') \<and>
           el_data node' = DArray children' \<and> ds_pos buffer' = ds_pos b3 \<and>
           drop dataBegin (ds_data buffer') = drop dataBegin (ds_data b3)"
    using c(1,2,3) by auto
qed

lemma leaf_written:
  assumes "writeEBML buffer off (Element eid esize dat o1 o2) = Inr (buffer', node')"
    and "\<forall>xs. dat \<noteq> DArray xs"
  shows "el_offset node' = Some (ds_pos buffer + off)"
    and "take (measureUnsignedInt eid) (drop (ds_pos buffer) (ds_data buffer'))
           = uint_be_bytes eid (measureUnsignedInt eid)"
    and "\<exists>sw. measureEBMLVarInt (size_field_value esize dat) = Some sw \<and>
             el_dataOffset node' = Some (ds_pos buffer + measureUnsignedInt eid + sw + off) \<and>
             take sw (drop (ds_pos buffer + measureUnsignedInt eid) (ds_data buffer'))
               = ebml_varint_bytes (size_field_value esize dat) sw \<and>
             take (length (payload_bytes esize dat))
                  (drop (ds_pos buffer + measureUnsignedInt eid + sw) (ds_data buffer'))
               = payload_bytes esize dat \<and>
             ds_pos buffer' = ds_pos buffer + measureUnsignedInt eid + sw
                                + length (payload_bytes esize dat)"
proof -
  from assms obtain b1 b2 sw where l:
    "writeBytes (uint_be_bytes eid (measureUnsignedInt eid)) buffer = Inr b1"
    "measureEBMLVarInt (size_field_value esize dat) = Some sw"
    "writeBytes (ebml_varint_bytes (size_field_value esize dat) sw) b1 = Inr b2"
    "writeBytes (payload_bytes esize dat) b2 = Inr buffer'"
    "el_offset node' = Some (ds_pos buffer + off)"
    "el_dataOffset node' = Some (ds_pos b2 + off)"
    by (rule leaf_unfold) blast
  note ch = leaf_chain [OF l(1,3,4)]
  show "el_offset node' = Some (ds_pos buffer + off)" by fact
  show "take (measureUnsignedInt eid) (drop (ds_pos buffer) (ds_data buffer'))
           = uint_be_bytes eid (measureUnsignedInt eid)"
    using ch(3) by simp
  show "\<exists>sw. measureEBMLVarInt (size_field_value esize dat) = Some sw \<and>
             el_dataOffset node' = Some (ds_pos buffer + measureUnsignedInt eid + sw + off) \<and>
             take sw (drop (ds_pos buffer + measureUnsignedInt eid) (ds_data buffer'))
               = ebml_varint_bytes (size_field_value esize dat) sw \<and>
             take (length (payload_bytes esize dat))
                  (drop (ds_pos buffer + measureUnsignedInt eid + sw) (ds_data buffer'))
               = payload_bytes esize dat \<and>
             ds_pos buffer' = ds_pos buffer + measureUnsignedInt eid + sw
                                + length (payload_bytes esize dat)"
    using l(2,6) ch by (intro exI [of _ sw]) simp
qed

text \<open>
  C3. Whenever \<open>writeEBML\<close> returns on an element, \<open>offset\<close> is the file offset of the
  element's first id byte and the id stands there, big-endian in its minimal width. For an
  element whose data is a list of children, \<open>dataOffset\<close> is the file offset just after the
  size field, the children are written from the stream that holds the id and the
  placeholder (\<open>FF\<close> for UNKNOWN, \<open>0F FF FF FF FF\<close> for UNKNOWN_5_BYTES, four zero bytes
  otherwise), the cursor ends where the children ended, and what the children wrote is
  left as it is. With a sentinel size the placeholder is still in place at the end and
  \<open>size\<close> is unchanged; otherwise the four bytes hold the fixed-width EBML integer of the
  payload length (cursor after the children minus cursor before them), which is also
  stored in \<open>size\<close> and reads back as that length when it is below \<open>2^28\<close>. For every other
  kind of data, \<open>dataOffset\<close> is the file offset of the first payload byte, just after the
  natural-width size field.
\<close>

theorem writeEBML_element:
  assumes "writeEBML buffer off (Element eid esize dat o1 o2) = Inr (buffer', node')"
  shows
   "el_offset node' = Some (ds_pos buffer + off) \<and>
    take (measureUnsignedInt eid) (drop (ds_pos buffer) (ds_data buffer'))
      = uint_be_bytes eid (measureUnsignedInt eid) \<and>
    (\<forall>children. dat = DArray children \<longrightarrow>
       (let sizePos = ds_pos buffer + measureUnsignedInt eid;
            ph = size_placeholder esize;
            dataBegin = sizePos + length ph
        in el_dataOffset node' = Some (dataBegin + off) \<and>
           (\<exists>b3 children'.
               writeEBML_array (after_header buffer eid esize) off children = Inr (b3, children') \<and>
               el_data node' = DArray children' \<and> ds_pos buffer' = ds_pos b3 \<and>
               drop dataBegin (ds_data buffer') = drop dataBegin (ds_data b3)) \<and>
           (esize = EBML_SIZE_UNKNOWN \<or> esize = EBML_SIZE_UNKNOWN_5_BYTES \<longrightarrow>
               el_size node' = esize \<and>
               take (length ph) (drop sizePos (ds_data buffer')) = ph) \<and>
           (esize \<noteq> EBML_SIZE_UNKNOWN \<and> esize \<noteq> EBML_SIZE_UNKNOWN_5_BYTES \<longrightarrow>
               el_size node' = SizeNum (ds_pos buffer' - dataBegin) \<and>
               take 4 (drop sizePos (ds_data buffer'))
                 = ebml_varint_bytes (ds_pos buffer' - dataBegin) 4 \<and>
               (ds_pos buffer' - dataBegin < 2 ^ 28 \<longrightarrow>
                  decode_varint 4 (take 4 (drop sizePos (ds_data buffer')))
                    = Some (ds_pos buffer' - dataBegin))))) \<and>
    ((\<forall>children. dat \<noteq> DArray children) \<longrightarrow>
       (\<exists>sw. measureEBMLVarInt (size_field_value esize dat) = Some sw \<and>
             el_dataOffset node' = Some (ds_pos buffer + measureUnsignedInt eid + sw + off) \<and>
             take sw (drop (ds_pos buffer + measureUnsignedInt eid) (ds_data buffer'))
               = ebml_varint_bytes (size_field_value esize dat) sw \<and>
             take (length (payload_bytes esize dat))
                  (drop (ds_pos buffer + measureUnsignedInt eid + sw) (ds_data buffer'))
               = payload_bytes esize dat \<and>
             ds_pos buffer' = ds_pos buffer + measureUnsignedInt eid + sw
                                + length (payload_bytes esize dat)))"
proof (intro conjI allI impI)
  show "el_offset node' = Some (ds_pos buffer + off)"
    using children_written(1) leaf_written(1) assms by (cases dat) blast+
  show "take (measureUnsignedInt eid) (drop (ds_pos buffer) (ds_data buffer'))
      = uint_be_bytes eid (measureUnsignedInt eid)"
    using children_written(2) leaf_written(2) assms by (cases dat) blast+
next
  fix children assume dat: "dat = DArray children"
  note cw = children_written [OF assms [unfolded dat]]
  have dec: "decode_varint 4 (ebml_varint_bytes n 4) = Some n" if "n < 2 ^ 28" for n
    using that by (intro decode_ebml_varint) simp_all
  show "let sizePos = ds_pos buffer + measureUnsignedInt eid;
            ph = size_placeholder esize;
            dataBegin = sizePos + length ph
        in el_dataOffset node' = Some (dataBegin + off) \<and>
           (\<exists>b3 children'.
               writeEBML_array (after_header buffer eid esize) off children = Inr (b3, children') \<and>
               el_data node' = DArray children' \<and> ds_pos buffer' = ds_pos b3 \<and>
               drop dataBegin (ds_data buffer') = drop dataBegin (ds_data b3)) \<and>
           (esize = EBML_SIZE_UNKNOWN \<or> esize = EBML_SIZE_UNKNOWN_5_BYTES \<longrightarrow>
               el_size node' = esize \<and>
               take (length ph) (drop sizePos (ds_data buffer')) = ph) \<and>
           (esize \<noteq> EBML_SIZE_UNKNOWN \<and> esize \<noteq> EBML_SIZE_UNKNOWN_5_BYTES \<longrightarrow>
               el_size node' = SizeNum (ds_pos buffer' - dataBegin) \<and>
               take 4 (drop sizePos (ds_data buffer'))
                 = ebml_varint_bytes (ds_pos buffer' - dataBegin) 4 \<and>
               (ds_pos buffer' - dataBegin < 2 ^ 28 \<longrightarrow>
                  decode_varint 4 (take 4 (drop sizePos (ds_data buffer')))
                    = Some (ds_pos buffer' - dataBegin)))"
    unfolding Let_def
    using cw(3) cw(4) cw(5) cw(6) dec by (intro conjI impI) simp_all
next
  assume "\<forall>children. dat \<noteq> DArray children"
  then show "\<exists>sw. measureEBMLVarInt (size_field_value esize dat) = Some sw \<and>
             el_dataOffset node' = Some (ds_pos buffer + measureUnsignedInt eid + sw + off) \<and>
             take sw (drop (ds_pos buffer + measureUnsignedInt eid) (ds_data buffer'))
               = ebml_varint_bytes (size_field_value esize dat) sw \<and>
             take (length (payload_bytes esize dat))
                  (drop (ds_pos buffer + measureUnsignedInt eid + sw) (ds_data buffer'))
               = payload_bytes esize dat \<and>
             ds_pos buffer' = ds_pos buffer + measureUnsignedInt eid + sw
                                + length (payload_bytes esize dat)"
    using leaf_written(3) [OF assms] by blast
qed

lemma upt_small:
  "[0..<1] = [0]" "[0..<2] = [0, 1]" "[0..<3] = [0, 1, 2]" "[0..<4] = [0, 1, 2, 3]"
  "[0..<5] = [0, 1, 2, 3, 4]" "[0..<8] = [0, 1, 2, 3, 4, 5, 6, 7]"
  by (simp_all add: upt_rec)

lemmas stream_eval =
  writeUnsignedIntBE_def writeBytes_def measureUnsignedInt_def uint_be_bytes_def write_at_def
  writeByte_def ds_seek_def writeEBMLVarIntWidth_def writeEBMLVarInt_def measureEBMLVarInt_def
  ebml_varint_bytes_def writeString_def writeU16BE_def writeDoubleBE_def writeFloatBE_def
  getAsDataArray_def Let_def upt_small

theorem writeEBML_element_witness:
  "writeEBML \<lparr>ds_data = [0, 0, 0, 0, 0, 0, 0, 0, 0, 0, 0, 0], ds_pos = 0\<rparr> 100
      (Element 0xA3 SizeUnset (DArray [EBytes [1, 2, 3]]) None None)
   = Inr (\<lparr>ds_data = [0xA3, 0x10, 0, 0, 3, 1, 2, 3, 0, 0, 0, 0], ds_pos = 8\<rparr>,
          Element 0xA3 (SizeNum 3) (DArray [EBytes [1, 2, 3]]) (Some 100) (Some 105)) \<and>
   decode_varint 4 (take 4 (drop 1 [0xA3, 0x10, 0, 0, 3, 1, 2, 3, 0, 0, 0, 0 :: byte])) = Some 3"
proof -
  have ok: "writeEBML \<lparr>ds_data = [0, 0, 0, 0, 0, 0, 0, 0, 0, 0, 0, 0], ds_pos = 0\<rparr> 100
      (Element 0xA3 SizeUnset (DArray [EBytes [1, 2, 3]]) None None)
   = Inr (\<lparr>ds_data = [0xA3, 0x10, 0, 0, 3, 1, 2, 3, 0, 0, 0, 0], ds_pos = 8\<rparr>,
          Element 0xA3 (SizeNum 3) (DArray [EBytes [1, 2, 3]]) (Some 100) (Some 105))"
    by (simp add: stream_eval)
  from writeEBML_element [OF ok]
  have "decode_varint 4 (take 4 (drop 1 [0xA3, 0x10, 0, 0, 3, 1, 2, 3, 0, 0, 0, 0 :: byte])) = Some 3"
    by (simp add: Let_def measureUnsignedInt_def ebml_varint_bytes_def uint_be_bytes_def upt_small)
  with ok show ?thesis by blast
qed

section \<open>Properties of the muxer\<close>

lemma and_then_Inr_iff [simp]:
  "and_then x f = Inr y \<longleftrightarrow> (\<exists>z. x = Inr z \<and> f z = Inr y)"
  by (cases x) auto






subsection \<open>Clusters\<close>

subsection \<open>Clusters\<close>


lemma writeStream_Inr:
  assumes "writeStream s m = Inr m'"
  shows "bb_write (DUint8Array (length (heap m)) 0 (ds_pos s))
           (heap m @ [getAsDataArray s], blobBuffer m) = Inr (heap m', blobBuffer m')"
  using assms by (auto simp: writeStream_def)

lemma writeStream_fields:
  assumes "writeStream s m = Inr m'"
  shows "\<exists>st b. m' = m\<lparr>heap := st, blobBuffer := b\<rparr>"
  using assms by (auto simp: writeStream_def)

lemma seekTo_Inr:
  assumes "seekTo p m = Inr m'"
  shows "m' = m\<lparr>blobBuffer := (blobBuffer m)\<lparr>bb_pos := p\<rparr>\<rparr>" "p \<le> bb_length (blobBuffer m)"
  using assms by (auto simp: seekTo_def bb_seek_def split: if_splits)

lemma addCuePoint_Inr:
  assumes "addCuePoint t c off m = Inr m'"
  shows "\<exists>cue. m' = m\<lparr>cues := cues m @ [cue]\<rparr>"
  using assms by (auto simp: addCuePoint_def)

lemma flush_nonempty:
  assumes "flushClusterFrameBuffer add m = Inr m'" "clusterFrameBuffer m \<noteq> []"
  shows "\<exists>st b cue. m' = m\<lparr>heap := st, blobBuffer := b, cues := cues m @ [cue],
            clusterFrameBuffer := [],
            clusterStartTime := add (clusterStartTime m) (clusterDuration m),
            clusterDuration := 0\<rparr>"
proof -
  from assms obtain buffer' m1 off m2 where
    w: "writeStream buffer' m = Inr m1" and
    c: "addCuePoint DEFAULT_TRACK_NUMBER (js_round (clusterStartTime m1)) off m1 = Inr m2" and
    r: "m' = m2\<lparr>clusterFrameBuffer := [],
                 clusterStartTime := add (clusterStartTime m2) (clusterDuration m2),
                 clusterDuration := 0\<rparr>"
    unfolding flushClusterFrameBuffer_def Let_def
    by (simp split: if_splits prod.splits) blast
  from addCuePoint_Inr [OF c] obtain cue where m2: "m2 = m1\<lparr>cues := cues m1 @ [cue]\<rparr>"
    by blast
  from writeStream_fields [OF w] obtain st b where m1: "m1 = m\<lparr>heap := st, blobBuffer := b\<rparr>"
    by blast
  have "m' = m\<lparr>heap := st, blobBuffer := b, cues := cues m @ [cue],
            clusterFrameBuffer := [],
            clusterStartTime := add (clusterStartTime m) (clusterDuration m),
            clusterDuration := 0\<rparr>"
    unfolding r m2 m1 by simp
  then show ?thesis by blast
qed

lemma writeHeader_Inr:
  assumes "writeHeader m = Inr m'"
  obtains bufferStream' hdr seg m1 infoOffset tracksOffset d where
    "writeEBML (new_stream 256) (bb_pos (blobBuffer m)) (header_tree m)
       = Inr (bufferStream', EArray [hdr, seg])"
    "writeStream bufferStream' m = Inr m1"
    "the_offset (child 1 seg) = Inr infoOffset"
    "the_offset (child 2 seg) = Inr tracksOffset"
    "the_dataOffset (Some seg) = Inr d"
    "m' = m1\<lparr>ebmlSegment := Some seg,
              segmentDuration :=
                (case child 1 seg of
                   Some info \<Rightarrow> (case child 3 info of Some d \<Rightarrow> d | None \<Rightarrow> segmentDuration m1)
                 | None \<Rightarrow> segmentDuration m1),
              seekHead := map_option (set_position 2 (tracksOffset - d) \<circ> set_position 1 (infoOffset - d))
                            (child 0 seg),
              writtenHeader := True\<rparr>"
proof -
  from assms obtain bs written where
    w0: "writeEBML (new_stream 256) (bb_pos (blobBuffer m)) (header_tree m) = Inr (bs, written)"
    by (cases "writeEBML (new_stream 256) (bb_pos (blobBuffer m)) (header_tree m)")
       (auto simp: writeHeader_def Let_def)
  from assms w0 obtain hdr seg where wr: "written = EArray [hdr, seg]"
    by (auto simp: writeHeader_def Let_def split: ebml.splits list.splits)
  from assms show ?thesis
    using that [of bs hdr seg] w0 [unfolded wr]
    by (auto simp: writeHeader_def Let_def fileOffsetToSegmentRelative_def)
qed

lemma writeHeader_fields:
  assumes "writeHeader m = Inr m'"
  shows "\<exists>st b seg sh sd. m' = m\<lparr>heap := st, blobBuffer := b, ebmlSegment := Some seg,
            segmentDuration := sd, seekHead := sh, writtenHeader := True\<rparr>"
proof -
  from assms obtain bufferStream' seg m1 sh sd where
    w: "writeStream bufferStream' m = Inr m1" and
    r: "m' = m1\<lparr>ebmlSegment := Some seg, segmentDuration := sd,
                 seekHead := sh, writtenHeader := True\<rparr>"
    by (rule writeHeader_Inr) blast
  from writeStream_fields [OF w] obtain st b where m1: "m1 = m\<lparr>heap := st, blobBuffer := b\<rparr>"
    by blast
  have "m' = m\<lparr>heap := st, blobBuffer := b, ebmlSegment := Some seg,
            segmentDuration := sd, seekHead := sh, writtenHeader := True\<rparr>"
    unfolding r m1 by simp
  then show ?thesis by blast
qed


lemma addFrameToCluster_cases:
  assumes "addFrameToCluster add frame m = Inr m'" and "cluster_ok add m"
  shows "cluster_ok add m'"
    and "MAX_CLUSTER_DURATION_MSEC \<le> add (clusterDuration m) (f_duration frame) \<Longrightarrow>
           clusterFrameBuffer m' = [] \<and> clusterDuration m' = 0 \<and>
           clusterStartTime m' = add (clusterStartTime m) (add (clusterDuration m) (f_duration frame)) \<and>
           length (cues m') = Suc (length (cues m))"
    and "add (clusterDuration m) (f_duration frame) < MAX_CLUSTER_DURATION_MSEC \<Longrightarrow>
           clusterFrameBuffer m' =
             clusterFrameBuffer m @
               [frame\<lparr>f_trackNumber := DEFAULT_TRACK_NUMBER,
                      f_timecode := js_round (clusterDuration m)\<rparr>] \<and>
           clusterDuration m' = add (clusterDuration m) (f_duration frame) \<and>
           clusterStartTime m' = clusterStartTime m \<and> cues m' = cues m"
proof -
  let ?f = "frame\<lparr>f_trackNumber := DEFAULT_TRACK_NUMBER, f_timecode := js_round (clusterDuration m)\<rparr>"
  let ?m2 = "m\<lparr>clusterFrameBuffer := clusterFrameBuffer m @ [?f],
               clusterDuration := add (clusterDuration m) (f_duration frame)\<rparr>"
  have a: "(if MAX_CLUSTER_DURATION_MSEC \<le> add (clusterDuration m) (f_duration frame)
            then flushClusterFrameBuffer add ?m2 else Inr ?m2) = Inr m'"
    using assms(1) by (simp add: addFrameToCluster_def Let_def split: if_splits)
  have small: "add (clusterDuration m) (f_duration frame) < MAX_CLUSTER_DURATION_MSEC \<Longrightarrow> m' = ?m2"
    using a by simp
  have big: "\<exists>st b cue. m' = ?m2\<lparr>heap := st, blobBuffer := b, cues := cues ?m2 @ [cue],
            clusterFrameBuffer := [],
            clusterStartTime := add (clusterStartTime ?m2) (clusterDuration ?m2),
            clusterDuration := 0\<rparr>"
    if "MAX_CLUSTER_DURATION_MSEC \<le> add (clusterDuration m) (f_duration frame)"
  proof (rule flush_nonempty)
    show "flushClusterFrameBuffer add ?m2 = Inr m'" using a that by simp
    show "clusterFrameBuffer ?m2 \<noteq> []" by simp
  qed
  show "cluster_ok add m'"
  proof (cases "MAX_CLUSTER_DURATION_MSEC \<le> add (clusterDuration m) (f_duration frame)")
    case True
    from big [OF True] show ?thesis by (auto simp: cluster_ok_def)
  next
    case False
    with small have "m' = ?m2" by simp
    with False assms(2) show ?thesis by (auto simp: cluster_ok_def)
  qed
  show "clusterFrameBuffer m' = [] \<and> clusterDuration m' = 0 \<and>
           clusterStartTime m' = add (clusterStartTime m) (add (clusterDuration m) (f_duration frame)) \<and>
           length (cues m') = Suc (length (cues m))"
    if "MAX_CLUSTER_DURATION_MSEC \<le> add (clusterDuration m) (f_duration frame)"
    using big [OF that] by auto
  show "clusterFrameBuffer m' = clusterFrameBuffer m @ [?f] \<and>
           clusterDuration m' = add (clusterDuration m) (f_duration frame) \<and>
           clusterStartTime m' = clusterStartTime m \<and> cues m' = cues m"
    if "add (clusterDuration m) (f_duration frame) < MAX_CLUSTER_DURATION_MSEC"
    using small [OF that] by simp
qed

lemma addFrame_Inr:
  assumes "addFrame add frame alpha ovr m = Inr m'"
  obtains m1 fr where
    "clusterFrameBuffer m1 = clusterFrameBuffer m" "clusterDuration m1 = clusterDuration m"
    "clusterStartTime m1 = clusterStartTime m" "cues m1 = cues m" "m_options m1 = m_options m"
    "f_duration fr = chosen_duration ovr alpha m"
    "addFrameToCluster add fr m1 = Inr m'"
proof -
  from assms obtain m1 where
    h: "(if \<not> writtenHeader m then
          writeHeader (m\<lparr>videoWidth := (case i_width frame of Some w \<Rightarrow> w | None \<Rightarrow> 0),
                        videoHeight := (case i_height frame of Some h \<Rightarrow> h | None \<Rightarrow> 0)\<rparr>)
        else Inr m) = Inr m1"
    by (auto simp: addFrame_def)
  have f: "clusterFrameBuffer m1 = clusterFrameBuffer m \<and> clusterDuration m1 = clusterDuration m \<and>
    clusterStartTime m1 = clusterStartTime m \<and> cues m1 = cues m \<and> m_options m1 = m_options m"
  proof (cases "writtenHeader m")
    case True
    with h show ?thesis by simp
  next
    case False
    with h writeHeader_fields [of "m\<lparr>videoWidth := (case i_width frame of Some w \<Rightarrow> w | None \<Rightarrow> 0),
                        videoHeight := (case i_height frame of Some h \<Rightarrow> h | None \<Rightarrow> 0)\<rparr>" m1]
    show ?thesis by auto
  qed
  from assms h obtain z :: keyframe and za where
    k: "addFrameToCluster add \<lparr>f_frame = k_frame z, f_alpha = za,
          f_duration = chosen_duration ovr alpha m1, f_trackNumber = 0, f_timecode = 0\<rparr> m1 = Inr m'"
    by (auto simp: addFrame_def Let_def chosen_duration_def)
  define fr where "fr = \<lparr>f_frame = k_frame z, f_alpha = za,
          f_duration = chosen_duration ovr alpha m1, f_trackNumber = 0, f_timecode = 0\<rparr>"
  have "f_duration fr = chosen_duration ovr alpha m1" "addFrameToCluster add fr m1 = Inr m'"
    using k by (simp_all add: fr_def)
  moreover have "chosen_duration ovr alpha m1 = chosen_duration ovr alpha m"
    using f by (auto simp: chosen_duration_def split: alpha_arg.splits)
  ultimately show ?thesis using that f by metis
qed

lemma addFrame_cluster_ok:
  assumes "addFrame add frame alpha ovr m = Inr m'" and "cluster_ok add m"
  shows "cluster_ok add m'"
proof -
  from assms(1) obtain m1 fr where
    f: "clusterFrameBuffer m1 = clusterFrameBuffer m" "clusterDuration m1 = clusterDuration m"
    and a: "addFrameToCluster add fr m1 = Inr m'"
    by (rule addFrame_Inr)
  from assms(2) have "cluster_ok add m1" unfolding cluster_ok_def f .
  with a show ?thesis by (rule addFrameToCluster_cases(1))
qed

lemma addFrames_cluster_ok:
  assumes "addFrames add calls m = Inr m'" and "cluster_ok add m"
  shows "cluster_ok add m'"
  using assms
proof (induction calls arbitrary: m)
  case Nil
  then show ?case by simp
next
  case (Cons c calls)
  obtain frame alpha ovr where c: "c = (frame, alpha, ovr)" by (cases c)
  from Cons.prems(1) obtain m1 where
    "addFrame add frame alpha ovr m = Inr m1" "addFrames add calls m1 = Inr m'"
    by (auto simp: c)
  with Cons.IH [of m1] addFrame_cluster_ok [of add] Cons.prems(2) show ?case by blast
qed

lemma WebMWriter_cluster_ok:
  assumes "WebMWriter u = Inr m"
  shows "cluster_ok add m"
  using assms by (auto simp: WebMWriter_def cluster_ok_def split: option.splits)

lemma foldl_plus_sum_list: "foldl (+) (a :: rat) xs = a + sum_list xs"
  by (induction xs arbitrary: a) (simp_all add: add.assoc)

lemmas muxer_eval =
  WebMWriter_def validateOptions_def extend_opts_def optionDefaults_def new_BlobBuffer_def
  writeHeader_def header_tree_def createSeekHead_def seekPoint_ids_def new_stream_def
  DEFAULT_TRACK_NUMBER_def MAX_CLUSTER_DURATION_MSEC_def
  writeStream_def bb_write_def measureData_def js_or_def child_def the_offset_def the_dataOffset_def
  fileOffsetToSegmentRelative_def set_position_def js_def

lemma extract_abc:
  "extractKeyframeFromWebP
     [82, 73, 70, 70, 16, 0, 0, 0, 87, 69, 66, 80, 86, 80, 56, 32, 3, 0, 0, 0, 97, 98, 99, 0]
     = Inr \<lparr>k_frame = [97, 98, 99], k_hasAlpha = False\<rparr>"
  by code_simp

lemmas cluster_eval =
  addFrame_def addFrameToCluster_def flushClusterFrameBuffer_def
  createCluster_def createContainerForKeyframe_def
  createSimpleBlockForKeyframe_def block_header_def addCuePoint_def js_round_def

text \<open>
  C6, as stated, has the flush happen exactly when the durations of the cluster add up to
  5000 ms or more, so that a flushed cluster has \<open>sum < 5000 + last\<close>. The muxer compares
  the double it accumulates, and a sum of doubles is rounded. Take the durations
  \<open>5000 - 2\<^sup>-\<^sup>4\<^sup>0\<close>, four times \<open>2\<^sup>-\<^sup>4\<^sup>2\<close>, and \<open>1\<close>, all of them doubles. Adding \<open>2\<^sup>-\<^sup>4\<^sup>2\<close> to
  \<open>5000 - 2\<^sup>-\<^sup>4\<^sup>0\<close> gives \<open>5000 - 2\<^sup>-\<^sup>4\<^sup>0\<close> again, the nearest double; every other sum the
  muxer computes here is exact. The addition below is the addition of doubles at each
  pair of numbers it is applied to. After the first five frames, whose durations add up
  to 5000 ms, nothing is flushed and the five frames are buffered; the sixth frame
  flushes a cluster whose durations add up to \<open>5000 + 1\<close>, the duration of its last frame
  being \<open>1\<close>.
\<close>

theorem cluster_sum_counterexample:
  "map_sum id (map f_duration \<circ> clusterFrameBuffer)
     (and_then
        (WebMWriter (Some \<lparr>u_quality = None, u_transparent = None, u_alphaQuality = None,
                             u_frameDuration = Some 40, u_frameRate = None\<rparr>))
        (addFrames ((+)(5000 - 1 / 2 ^ 40 := ((+) (5000 - 1 / 2 ^ 40))(1 / 2 ^ 42 := 5000 - 1 / 2 ^ 40)))
           [(\<lparr>i_width = Some 1, i_height = Some 1,
              i_webp = [82, 73, 70, 70, 16, 0, 0, 0, 87, 69, 66, 80, 86, 80, 56, 32,
                        3, 0, 0, 0, 97, 98, 99, 0],
              i_alpha_webp = []\<rparr>, NoAlpha, Some (5000 - 1 / 2 ^ 40)),
            (\<lparr>i_width = Some 1, i_height = Some 1,
              i_webp = [82, 73, 70, 70, 16, 0, 0, 0, 87, 69, 66, 80, 86, 80, 56, 32,
                        3, 0, 0, 0, 97, 98, 99, 0],
              i_alpha_webp = []\<rparr>, NoAlpha, Some (1 / 2 ^ 42)),
            (\<lparr>i_width = Some 1, i_height = Some 1,
              i_webp = [82, 73, 70, 70, 16, 0, 0, 0, 87, 69, 66, 80, 86, 80, 56, 32,
                        3, 0, 0, 0, 97, 98, 99, 0],
              i_alpha_webp = []\<rparr>, NoAlpha, Some (1 / 2 ^ 42)),
            (\<lparr>i_width = Some 1, i_height = Some 1,
              i_webp = [82, 73, 70, 70, 16, 0, 0, 0, 87, 69, 66, 80, 86, 80, 56, 32,
                        3, 0, 0, 0, 97, 98, 99, 0],
              i_alpha_webp = []\<rparr>, NoAlpha, Some (1 / 2 ^ 42)),
            (\<lparr>i_width = Some 1, i_height = Some 1,
              i_webp = [82, 73, 70, 70, 16, 0, 0, 0, 87, 69, 66, 80, 86, 80, 56, 32,
                        3, 0, 0, 0, 97, 98, 99, 0],
              i_alpha_webp = []\<rparr>, NoAlpha, Some (1 / 2 ^ 42))]))
   = Inr [5000 - 1 / 2 ^ 40, 1 / 2 ^ 42, 1 / 2 ^ 42, 1 / 2 ^ 42, 1 / 2 ^ 42] \<and>
   map_sum id (map f_duration \<circ> clusterFrameBuffer)
     (and_then
        (WebMWriter (Some \<lparr>u_quality = None, u_transparent = None, u_alphaQuality = None,
                             u_frameDuration = Some 40, u_frameRate = None\<rparr>))
        (addFrames ((+)(5000 - 1 / 2 ^ 40 := ((+) (5000 - 1 / 2 ^ 40))(1 / 2 ^ 42 := 5000 - 1 / 2 ^ 40)))
           [(\<lparr>i_width = Some 1, i_height = Some 1,
              i_webp = [82, 73, 70, 70, 16, 0, 0, 0, 87, 69, 66, 80, 86, 80, 56, 32,
                        3, 0, 0, 0, 97, 98, 99, 0],
              i_alpha_webp = []\<rparr>, NoAlpha, Some (5000 - 1 / 2 ^ 40)),
            (\<lparr>i_width = Some 1, i_height = Some 1,
              i_webp = [82, 73, 70, 70, 16, 0, 0, 0, 87, 69, 66, 80, 86, 80, 56, 32,
                        3, 0, 0, 0, 97, 98, 99, 0],
              i_alpha_webp = []\<rparr>, NoAlpha, Some (1 / 2 ^ 42)),
            (\<lparr>i_width = Some 1, i_height = Some 1,
              i_webp = [82, 73, 70, 70, 16, 0, 0, 0, 87, 69, 66, 80, 86, 80, 56, 32,
                        3, 0, 0, 0, 97, 98, 99, 0],
              i_alpha_webp = []\<rparr>, NoAlpha, Some (1 / 2 ^ 42)),
            (\<lparr>i_width = Some 1, i_height = Some 1,
              i_webp = [82, 73, 70, 70, 16, 0, 0, 0, 87, 69, 66, 80, 86, 80, 56, 32,
                        3, 0, 0, 0, 97, 98, 99, 0],
              i_alpha_webp = []\<rparr>, NoAlpha, Some (1 / 2 ^ 42)),
            (\<lparr>i_width = Some 1, i_height = Some 1,
              i_webp = [82, 73, 70, 70, 16, 0, 0, 0, 87, 69, 66, 80, 86, 80, 56, 32,
                        3, 0, 0, 0, 97, 98, 99, 0],
              i_alpha_webp = []\<rparr>, NoAlpha, Some (1 / 2 ^ 42)),
            (\<lparr>i_width = Some 1, i_height = Some 1,
              i_webp = [82, 73, 70, 70, 16, 0, 0, 0, 87, 69, 66, 80, 86, 80, 56, 32,
                        3, 0, 0, 0, 97, 98, 99, 0],
              i_alpha_webp = []\<rparr>, NoAlpha, Some (1))]))
   = Inr [] \<and>
   sum_list [5000 - 1 / 2 ^ 40, 1 / 2 ^ 42, 1 / 2 ^ 42, 1 / 2 ^ 42, 1 / 2 ^ 42, 1 :: rat] = 5000 + 1"
  by (simp add: cluster_eval extract_abc muxer_eval stream_eval)

text \<open>
  C6, amended. Take any sequence of \<open>addFrame\<close> calls on a freshly constructed muxer, and
  one more call, which gives its frame the duration \<open>d\<close>; durations of any sign, and any
  addition of doubles. Before and after the call the cluster duration is what adding up
  the durations of the buffered frames gives in doubles, and the buffer is empty or that
  duration is below 5000 ms. The call flushes exactly when the duration accumulated with
  the new frame, \<open>total\<close>, reaches 5000 ms: then the buffer is empty afterwards, one cue
  point is added, the next cluster starts at the old start plus \<open>total\<close>, and what the
  frames before the last one accumulated is below 5000 ms. Otherwise the frame is
  appended to the buffer and nothing is flushed. Where the additions are exact, \<open>total\<close>
  is the sum of the durations of the cluster, and a flushed cluster has
  \<open>total < 5000 + d\<close>.
\<close>

theorem cluster_flush:
  assumes "WebMWriter u = Inr m0"
    and "addFrames add calls m0 = Inr m"
    and "addFrame add frame alpha overrideFrameDuration m = Inr m'"
  shows "cluster_ok add m \<and> cluster_ok add m' \<and>
    (let d = chosen_duration overrideFrameDuration alpha m;
         total = add (clusterDuration m) d
     in (if MAX_CLUSTER_DURATION_MSEC \<le> total
         then clusterFrameBuffer m' = [] \<and> clusterDuration m' = 0 \<and>
              length (cues m') = Suc (length (cues m)) \<and>
              clusterStartTime m' = add (clusterStartTime m) total \<and>
              foldl add 0 (map f_duration (clusterFrameBuffer m)) < MAX_CLUSTER_DURATION_MSEC
         else (\<exists>f. clusterFrameBuffer m' = clusterFrameBuffer m @ [f] \<and> f_duration f = d) \<and>
              clusterDuration m' = total \<and> cues m' = cues m \<and>
              clusterStartTime m' = clusterStartTime m) \<and>
        ((\<forall>x y. add x y = x + y) \<longrightarrow>
           total = sum_list (map f_duration (clusterFrameBuffer m)) + d \<and>
           (MAX_CLUSTER_DURATION_MSEC \<le> total \<longrightarrow> total < MAX_CLUSTER_DURATION_MSEC + d)))"
proof -
  have ok: "cluster_ok add m"
    using assms(1,2) WebMWriter_cluster_ok addFrames_cluster_ok by blast
  from assms(3) obtain m1 fr where
    f: "clusterFrameBuffer m1 = clusterFrameBuffer m" "clusterDuration m1 = clusterDuration m"
       "clusterStartTime m1 = clusterStartTime m" "cues m1 = cues m"
    and d: "f_duration fr = chosen_duration overrideFrameDuration alpha m"
    and a: "addFrameToCluster add fr m1 = Inr m'"
    by (rule addFrame_Inr)
  from ok have ok1: "cluster_ok add m1" unfolding cluster_ok_def f .
  have s: "foldl add 0 (map f_duration (clusterFrameBuffer m)) = clusterDuration m"
    using ok by (simp add: cluster_ok_def)
  have lt: "clusterDuration m < MAX_CLUSTER_DURATION_MSEC"
    using ok by (auto simp: cluster_ok_def MAX_CLUSTER_DURATION_MSEC_def)
  have ex: "clusterDuration m = sum_list (map f_duration (clusterFrameBuffer m))"
    if "\<forall>x y. add x y = x + y"
  proof -
    from that have "add = (+)" by (intro ext) simp
    with s show ?thesis by (simp add: foldl_plus_sum_list)
  qed
  note c = addFrameToCluster_cases [OF a ok1, unfolded f d]
  let ?d = "chosen_duration overrideFrameDuration alpha m"
  have x: "(\<forall>x y. add x y = x + y) \<longrightarrow>
           add (clusterDuration m) ?d = sum_list (map f_duration (clusterFrameBuffer m)) + ?d \<and>
           (MAX_CLUSTER_DURATION_MSEC \<le> add (clusterDuration m) ?d \<longrightarrow>
              add (clusterDuration m) ?d < MAX_CLUSTER_DURATION_MSEC + ?d)"
    using ex lt by auto
  have main: "if MAX_CLUSTER_DURATION_MSEC \<le> add (clusterDuration m) ?d
         then clusterFrameBuffer m' = [] \<and> clusterDuration m' = 0 \<and>
              length (cues m') = Suc (length (cues m)) \<and>
              clusterStartTime m' = add (clusterStartTime m) (add (clusterDuration m) ?d) \<and>
              foldl add 0 (map f_duration (clusterFrameBuffer m)) < MAX_CLUSTER_DURATION_MSEC
         else (\<exists>f. clusterFrameBuffer m' = clusterFrameBuffer m @ [f] \<and> f_duration f = ?d) \<and>
              clusterDuration m' = add (clusterDuration m) ?d \<and> cues m' = cues m \<and>
              clusterStartTime m' = clusterStartTime m"
  proof (cases "MAX_CLUSTER_DURATION_MSEC \<le> add (clusterDuration m) ?d")
    case True
    with c(2) lt show ?thesis by (simp add: s)
  next
    case False
    then have "add (clusterDuration m) ?d < MAX_CLUSTER_DURATION_MSEC"
      by simp
    from c(3) [OF this] False d show ?thesis
      by simp
  qed
  from ok c(1) main x show ?thesis
    unfolding Let_def by (intro conjI)
qed

theorem cluster_flush_witness:
  "\<exists>m0 m m'.
     WebMWriter (Some \<lparr>u_quality = None, u_transparent = None, u_alphaQuality = None,
                      u_frameDuration = None, u_frameRate = Some 25\<rparr>) = Inr m0 \<and>
     addFrames (+) [(\<lparr>i_width = Some 1, i_height = Some 1,
                  i_webp = [82, 73, 70, 70, 16, 0, 0, 0, 87, 69, 66, 80, 86, 80, 56, 32,
                            3, 0, 0, 0, 97, 98, 99, 0],
                  i_alpha_webp = []\<rparr>, NoAlpha, Some 4990)] m0 = Inr m \<and>
     addFrame (+) \<lparr>i_width = Some 1, i_height = Some 1,
               i_webp = [82, 73, 70, 70, 16, 0, 0, 0, 87, 69, 66, 80, 86, 80, 56, 32,
                         3, 0, 0, 0, 97, 98, 99, 0],
               i_alpha_webp = []\<rparr> NoAlpha None m = Inr m' \<and>
     length (clusterFrameBuffer m) = 1 \<and> clusterDuration m = 4990 \<and>
     cluster_ok (+) m' \<and> clusterFrameBuffer m' = [] \<and> clusterDuration m' = 0 \<and>
     length (cues m') = 1 \<and> clusterStartTime m' = 5030 \<and>
     sum_list (map f_duration (clusterFrameBuffer m)) + 40 < 5000 + (40 :: rat)"
proof -
  let ?u = "\<lparr>u_quality = None, u_transparent = None, u_alphaQuality = None,
                      u_frameDuration = None, u_frameRate = Some (25 :: rat)\<rparr>"
  let ?img = "\<lparr>i_width = Some 1, i_height = Some 1,
                  i_webp = [82, 73, 70, 70, 16, 0, 0, 0, 87, 69, 66, 80, 86, 80, 56, 32,
                            3, 0, 0, 0, 97, 98, 99, 0],
                  i_alpha_webp = []\<rparr>"
  have "\<exists>m0 m. WebMWriter (Some ?u) = Inr m0 \<and>
      addFrames (+) [(?img, NoAlpha, Some 4990)] m0 = Inr m \<and>
      length (clusterFrameBuffer m) = 1 \<and> clusterDuration m = 4990 \<and> cues m = [] \<and>
      clusterStartTime m = 0 \<and> frameDuration (m_options m) = Some 40 \<and>
      (\<exists>m'. addFrame (+) ?img NoAlpha None m = Inr m')"
    by (simp add: cluster_eval extract_abc muxer_eval stream_eval)
  then obtain m0 m m' where
    c: "WebMWriter (Some ?u) = Inr m0" and
    s: "addFrames (+) [(?img, NoAlpha, Some 4990)] m0 = Inr m" and
    f: "length (clusterFrameBuffer m) = 1" "clusterDuration m = 4990" "cues m = []"
       "clusterStartTime m = 0" "frameDuration (m_options m) = Some 40" and
    a: "addFrame (+) ?img NoAlpha None m = Inr m'"
    by blast
  have e: "\<forall>x y :: rat. x + y = x + y" by simp
  from cluster_flush [OF c s a] have ok: "cluster_ok (+) m" and ok': "cluster_ok (+) m'" and
    r: "(let d = chosen_duration None NoAlpha m;
         total = clusterDuration m + d
     in (if MAX_CLUSTER_DURATION_MSEC \<le> total
         then clusterFrameBuffer m' = [] \<and> clusterDuration m' = 0 \<and>
              length (cues m') = Suc (length (cues m)) \<and>
              clusterStartTime m' = clusterStartTime m + total \<and>
              foldl (+) 0 (map f_duration (clusterFrameBuffer m)) < MAX_CLUSTER_DURATION_MSEC
         else (\<exists>f. clusterFrameBuffer m' = clusterFrameBuffer m @ [f] \<and> f_duration f = d) \<and>
              clusterDuration m' = total \<and> cues m' = cues m \<and>
              clusterStartTime m' = clusterStartTime m) \<and>
        ((\<forall>x y :: rat. x + y = x + y) \<longrightarrow>
           total = sum_list (map f_duration (clusterFrameBuffer m)) + d \<and>
           (MAX_CLUSTER_DURATION_MSEC \<le> total \<longrightarrow> total < MAX_CLUSTER_DURATION_MSEC + d)))"
    by blast+
  have d: "chosen_duration None NoAlpha m = 40"
    by (simp add: chosen_duration_def f)
  from r e have "clusterFrameBuffer m' = [] \<and> clusterDuration m' = 0 \<and>
     length (cues m') = 1 \<and> clusterStartTime m' = 5030 \<and>
     sum_list (map f_duration (clusterFrameBuffer m)) + 40 < 5000 + (40 :: rat)"
    by (simp add: d f MAX_CLUSTER_DURATION_MSEC_def Let_def)
  with c s a f ok' show ?thesis by blast
qed

subsection \<open>Completion\<close>

lemma seekTo_fields:
  assumes "seekTo p m = Inr m'"
  shows "\<exists>b. m' = m\<lparr>blobBuffer := b\<rparr>"
  using seekTo_Inr(1) [OF assms] by blast

lemma writeCues_fields:
  assumes "writeCues m = Inr m'"
  shows "\<exists>st b c sh. m' = m\<lparr>heap := st, blobBuffer := b, cues := c, seekHead := sh\<rparr>"
proof -
  from assms obtain s m1 c sh where
    w: "writeStream s m = Inr m1" and r: "m' = m1\<lparr>cues := c, seekHead := sh\<rparr>"
    unfolding writeCues_def Let_def by (auto split: prod.splits)
  from writeStream_fields [OF w] obtain st b where "m1 = m\<lparr>heap := st, blobBuffer := b\<rparr>"
    by blast
  with r have "m' = m\<lparr>heap := st, blobBuffer := b, cues := c, seekHead := sh\<rparr>" by simp
  then show ?thesis by blast
qed

lemma rewriteSeekHead_shape:
  assumes "rewriteSeekHead m = Inr m'"
  obtains i n d off dataOffset where
    "seekHead m = Some (Element i (SizeNum n) d off (Some dataOffset))"
proof (cases "seekHead m")
  case None
  with assms show ?thesis by (simp add: rewriteSeekHead_def)
next
  case (Some e)
  show ?thesis
  proof (cases e)
    case (Element i sz d off doff)
    show ?thesis
    proof (cases sz)
      case (SizeNum n)
      show ?thesis
      proof (cases doff)
        case None
        with assms Some Element SizeNum show ?thesis by (simp add: rewriteSeekHead_def)
      next
        case (Some dataOffset)
        with \<open>seekHead m = Some e\<close> Element SizeNum that show ?thesis by simp
      qed
    qed (use assms Some Element in \<open>simp_all add: rewriteSeekHead_def\<close>)
  qed (use assms Some in \<open>simp_all add: rewriteSeekHead_def\<close>)
qed

lemma rewriteSeekHead_Inr:
  assumes "rewriteSeekHead m = Inr m'"
  obtains i n d off dataOffset seekHeadBuffer' written m1 m2 m3 where
    "seekHead m = Some (Element i (SizeNum n) d off (Some dataOffset))"
    "writeEBML (new_stream n) dataOffset
       (EArray (children_of (Element i (SizeNum n) d off (Some dataOffset))))
       = Inr (seekHeadBuffer', written)"
    "seekTo dataOffset m = Inr m1"
    "writeStream seekHeadBuffer' m1 = Inr m2"
    "seekTo (bb_pos (blobBuffer m)) m2 = Inr m3"
    "m' = m3\<lparr>seekHead :=
                     Some (case written of
                             EArray xs \<Rightarrow> set_children xs (Element i (SizeNum n) d off (Some dataOffset))
                           | _ \<Rightarrow> Element i (SizeNum n) d off (Some dataOffset))\<rparr>"
proof -
  from assms obtain i n d off dataOffset where
    sh: "seekHead m = Some (Element i (SizeNum n) d off (Some dataOffset))"
    by (rule rewriteSeekHead_shape)
  from assms show ?thesis
    using that [OF sh]
    unfolding rewriteSeekHead_def sh Let_def
    by (auto split: prod.splits)
qed

lemma rewriteSeekHead_fields:
  assumes "rewriteSeekHead m = Inr m'"
  shows "\<exists>st b sh. m' = m\<lparr>heap := st, blobBuffer := b, seekHead := sh\<rparr>"
proof -
  from assms obtain p s q m1 m2 m3 sh where
    a: "seekTo p m = Inr m1" and w: "writeStream s m1 = Inr m2" and
    b: "seekTo q m2 = Inr m3" and r: "m' = m3\<lparr>seekHead := sh\<rparr>"
    by (rule rewriteSeekHead_Inr) blast
  from seekTo_fields [OF a] obtain b1 where 1: "m1 = m\<lparr>blobBuffer := b1\<rparr>" by blast
  from writeStream_fields [OF w] obtain st b2 where 2: "m2 = m1\<lparr>heap := st, blobBuffer := b2\<rparr>"
    by blast
  from seekTo_fields [OF b] obtain b3 where 3: "m3 = m2\<lparr>blobBuffer := b3\<rparr>" by blast
  have "m' = m\<lparr>heap := st, blobBuffer := b3, seekHead := sh\<rparr>"
    unfolding r 3 2 1 by simp
  then show ?thesis by blast
qed

lemma rewriteDuration_fields:
  assumes "rewriteDuration enc m = Inr m'"
  shows "\<exists>st b. m' = m\<lparr>heap := st, blobBuffer := b\<rparr>"
proof -
  from assms obtain p s q m1 m2 where
    a: "seekTo p m = Inr m1" and w: "writeStream s m1 = Inr m2" and
    b: "seekTo q m2 = Inr m'"
    unfolding rewriteDuration_def Let_def by auto
  from seekTo_fields [OF a] obtain b1 where 1: "m1 = m\<lparr>blobBuffer := b1\<rparr>" by blast
  from writeStream_fields [OF w] obtain st b2 where 2: "m2 = m1\<lparr>heap := st, blobBuffer := b2\<rparr>"
    by blast
  from seekTo_fields [OF b] obtain b3 where 3: "m' = m2\<lparr>blobBuffer := b3\<rparr>" by blast
  have "m' = m\<lparr>heap := st, blobBuffer := b3\<rparr>"
    unfolding 3 2 1 by simp
  then show ?thesis by blast
qed

lemma rewriteSegmentLength_fields:
  assumes "rewriteSegmentLength m = Inr m'"
  shows "\<exists>st b. m' = m\<lparr>heap := st, blobBuffer := b\<rparr>"
proof -
  from assms obtain p s q m1 m2 where
    a: "seekTo p m = Inr m1" and w: "writeStream s m1 = Inr m2" and
    b: "seekTo q m2 = Inr m'"
    unfolding rewriteSegmentLength_def Let_def by (auto split: option.splits)
  from seekTo_fields [OF a] obtain b1 where 1: "m1 = m\<lparr>blobBuffer := b1\<rparr>" by blast
  from writeStream_fields [OF w] obtain st b2 where 2: "m2 = m1\<lparr>heap := st, blobBuffer := b2\<rparr>"
    by blast
  from seekTo_fields [OF b] obtain b3 where 3: "m' = m2\<lparr>blobBuffer := b3\<rparr>" by blast
  have "m' = m\<lparr>heap := st, blobBuffer := b3\<rparr>"
    unfolding 3 2 1 by simp
  then show ?thesis by blast
qed

lemma flush_fields:
  assumes "flushClusterFrameBuffer add m = Inr m'" and "cluster_ok add m"
  shows "\<exists>st b c t. m' = m\<lparr>heap := st, blobBuffer := b, cues := c,
            clusterFrameBuffer := [], clusterStartTime := t, clusterDuration := 0\<rparr>"
proof (cases "clusterFrameBuffer m = []")
  case True
  with assms have "m' = m" "clusterDuration m = 0"
    by (auto simp: flushClusterFrameBuffer_def cluster_ok_def)
  with True have "m' = m\<lparr>heap := heap m, blobBuffer := blobBuffer m, cues := cues m,
            clusterFrameBuffer := [], clusterStartTime := clusterStartTime m, clusterDuration := 0\<rparr>"
    by simp
  then show ?thesis by blast
next
  case False
  from flush_nonempty [OF assms(1) False] show ?thesis by blast
qed

lemma complete_fields:
  assumes "complete add enc m = Inr (r, m')" and "cluster_ok add m"
  shows "\<exists>st b c t seg sd sh. m' = m\<lparr>heap := st, blobBuffer := b, cues := c,
            clusterFrameBuffer := [], clusterStartTime := t, clusterDuration := 0,
            ebmlSegment := seg, segmentDuration := sd, seekHead := sh, writtenHeader := True\<rparr>"
proof -
  from assms(1) obtain m1 m2 m3 m4 m5 where
    h: "(if \<not> writtenHeader m then writeHeader m else Inr m) = Inr m1" and
    f: "flushClusterFrameBuffer add m1 = Inr m2" and
    c: "writeCues m2 = Inr m3" and
    s: "rewriteSeekHead m3 = Inr m4" and
    d: "rewriteDuration enc m4 = Inr m5" and
    l: "rewriteSegmentLength m5 = Inr m'"
    unfolding complete_def by auto
  have "\<exists>st b seg sd sh. m1 = m\<lparr>heap := st, blobBuffer := b, ebmlSegment := seg,
            segmentDuration := sd, seekHead := sh, writtenHeader := True\<rparr>"
  proof (cases "writtenHeader m")
    case True
    with h have "m1 = m\<lparr>heap := heap m, blobBuffer := blobBuffer m, ebmlSegment := ebmlSegment m,
            segmentDuration := segmentDuration m, seekHead := seekHead m, writtenHeader := True\<rparr>"
      by simp
    then show ?thesis by blast
  next
    case False
    with h have "writeHeader m = Inr m1" by simp
    from writeHeader_fields [OF this] show ?thesis by blast
  qed
  then obtain st1 b1 seg sd sh1 where 1: "m1 = m\<lparr>heap := st1, blobBuffer := b1, ebmlSegment := seg,
            segmentDuration := sd, seekHead := sh1, writtenHeader := True\<rparr>" by blast
  from assms(2) have "cluster_ok add m1" by (auto simp: 1 cluster_ok_def)
  from flush_fields [OF f this] obtain st2 b2 c2 t where
    2: "m2 = m1\<lparr>heap := st2, blobBuffer := b2, cues := c2,
            clusterFrameBuffer := [], clusterStartTime := t, clusterDuration := 0\<rparr>" by blast
  from writeCues_fields [OF c] obtain st3 b3 c3 sh3 where
    3: "m3 = m2\<lparr>heap := st3, blobBuffer := b3, cues := c3, seekHead := sh3\<rparr>" by blast
  from rewriteSeekHead_fields [OF s] obtain st4 b4 sh4 where
    4: "m4 = m3\<lparr>heap := st4, blobBuffer := b4, seekHead := sh4\<rparr>" by blast
  from rewriteDuration_fields [OF d] obtain st5 b5 where
    5: "m5 = m4\<lparr>heap := st5, blobBuffer := b5\<rparr>" by blast
  from rewriteSegmentLength_fields [OF l] obtain st6 b6 where
    6: "m' = m5\<lparr>heap := st6, blobBuffer := b6\<rparr>" by blast
  have "m' = m\<lparr>heap := st6, blobBuffer := b6, cues := c3,
            clusterFrameBuffer := [], clusterStartTime := t, clusterDuration := 0,
            ebmlSegment := seg, segmentDuration := sd, seekHead := sh4, writtenHeader := True\<rparr>"
    unfolding 6 5 4 3 2 1 by simp
  then show ?thesis by blast
qed


lemma addFrame_options:
  assumes "addFrame add frame alpha ovr m = Inr m'"
  shows "m_options m' = m_options m"
proof -
  from assms obtain m1 fr where o: "m_options m1 = m_options m"
    and a: "addFrameToCluster add fr m1 = Inr m'"
    by (rule addFrame_Inr)
  let ?m2 = "m1\<lparr>clusterFrameBuffer := clusterFrameBuffer m1 @
       [fr\<lparr>f_trackNumber := DEFAULT_TRACK_NUMBER, f_timecode := js_round (clusterDuration m1)\<rparr>],
       clusterDuration := add (clusterDuration m1) (f_duration fr)\<rparr>"
  from a have "flushClusterFrameBuffer add ?m2 = Inr m' \<or> m' = ?m2"
    by (simp add: addFrameToCluster_def Let_def split: if_splits)
  then show ?thesis
  proof
    assume "flushClusterFrameBuffer add ?m2 = Inr m'"
    from flush_nonempty [OF this] o show ?thesis by auto
  next
    assume "m' = ?m2"
    with o show ?thesis by simp
  qed
qed

lemma addFrames_options:
  assumes "addFrames add calls m = Inr m'"
  shows "m_options m' = m_options m"
  using assms
proof (induction calls arbitrary: m)
  case Nil
  then show ?case by simp
next
  case (Cons c calls)
  obtain frame alpha ovr where c: "c = (frame, alpha, ovr)" by (cases c)
  from Cons.prems obtain m1 where
    "addFrame add frame alpha ovr m = Inr m1" "addFrames add calls m1 = Inr m'"
    by (auto simp: c)
  with Cons.IH [of m1] addFrame_options [of add frame alpha ovr m m1] show ?case by simp
qed

lemma js_round_0 [simp]: "js_round 0 = 0"
  by (simp add: js_round_def)

lemmas complete_eval =
  complete_def writeCues_def rewriteSeekHead_def rewriteDuration_def rewriteSegmentLength_def
  seekTo_def bb_seek_def bb_complete_def

text \<open>
  C7, as stated, makes every call after \<open>complete\<close> fail. On a muxer constructed with
  \<open>frameRate = 25\<close>, the calls \<open>complete\<close>, \<open>addFrame\<close> and \<open>complete\<close> again all
  succeed; the second \<open>complete\<close> returns a file of 295 bytes. The encoding of doubles
  is fixed at the two durations written, 0 and 40, and the sums computed, \<open>0 + 40\<close> for the
  cluster duration and for the start of the next cluster, are exact in doubles.
\<close>

theorem further_calls_counterexample:
  "map_sum id (length \<circ> fst \<circ> fst)
     (and_then
        (and_then
           (and_then
              (WebMWriter (Some \<lparr>u_quality = None, u_transparent = None, u_alphaQuality = None,
                                   u_frameDuration = None, u_frameRate = Some 25\<rparr>))
              (complete (+) (undefined(0 := 0, 40 := 0x4044000000000000))))
           (addFrame (+) \<lparr>i_width = Some 1, i_height = Some 1,
                      i_webp = [82, 73, 70, 70, 16, 0, 0, 0, 87, 69, 66, 80, 86, 80, 56, 32,
                                3, 0, 0, 0, 97, 98, 99, 0],
                      i_alpha_webp = []\<rparr> NoAlpha None \<circ> snd))
        (complete (+) (undefined(0 := 0, 40 := 0x4044000000000000)))) = Inr 295"
  by (simp add: complete_eval cluster_eval extract_abc muxer_eval stream_eval)

text \<open>
  C7, amended. The muxer has no completed state. Take a muxer that was constructed, given
  any sequence of \<open>addFrame\<close> calls, and completed. Afterwards the header is written, the
  cluster buffer is empty, the cluster duration is 0 and the options are those of the
  construction; and a further \<open>addFrame\<close> is accepted as in the writing state: on a muxer
  without transparency, when the keyframe of the image is extracted and the duration of
  the frame, added to the cluster duration 0, is below 5000 ms, the call succeeds and
  buffers the frame as the first one of a new cluster. This holds for any addition of
  doubles.
\<close>

theorem calls_after_complete:
  assumes "WebMWriter u = Inr m0"
    and "addFrames add calls m0 = Inr m"
    and "complete add enc m = Inr (r, m')"
  shows "writtenHeader m' \<and> clusterFrameBuffer m' = [] \<and> clusterDuration m' = 0 \<and>
    m_options m' = m_options m0 \<and>
    (\<forall>frame alpha overrideFrameDuration k.
       extractKeyframeFromWebP (i_webp frame) = Inr k \<and> \<not> transparent (m_options m') \<and>
       add 0 (chosen_duration overrideFrameDuration alpha m') < MAX_CLUSTER_DURATION_MSEC \<longrightarrow>
       addFrame add frame alpha overrideFrameDuration m' =
         Inr (m'\<lparr>clusterFrameBuffer :=
                    [\<lparr>f_frame = k_frame k, f_alpha = None,
                      f_duration = chosen_duration overrideFrameDuration alpha m',
                      f_trackNumber = DEFAULT_TRACK_NUMBER, f_timecode = 0\<rparr>],
                  clusterDuration := add 0 (chosen_duration overrideFrameDuration alpha m')\<rparr>))"
proof -
  have ok: "cluster_ok add m"
    using assms(1,2) WebMWriter_cluster_ok addFrames_cluster_ok by blast
  from complete_fields [OF assms(3) ok] have
    f: "writtenHeader m'" "clusterFrameBuffer m' = []" "clusterDuration m' = 0"
      "m_options m' = m_options m"
    by auto
  have o: "m_options m = m_options m0"
    using assms(2) by (rule addFrames_options)
  have "addFrame add frame alpha ovr m' =
         Inr (m'\<lparr>clusterFrameBuffer :=
                    [\<lparr>f_frame = k_frame k, f_alpha = None,
                      f_duration = chosen_duration ovr alpha m',
                      f_trackNumber = DEFAULT_TRACK_NUMBER, f_timecode = 0\<rparr>],
                  clusterDuration := add 0 (chosen_duration ovr alpha m')\<rparr>)"
    if "extractKeyframeFromWebP (i_webp frame) = Inr k" "\<not> transparent (m_options m')"
       "add 0 (chosen_duration ovr alpha m') < MAX_CLUSTER_DURATION_MSEC"
    for frame alpha ovr k
    using that f
    by (simp add: addFrame_def addFrameToCluster_def Let_def chosen_duration_def)
  with f o show ?thesis by simp
qed

theorem calls_after_complete_witness:
  "\<exists>m0 r m'.
     WebMWriter (Some \<lparr>u_quality = None, u_transparent = None, u_alphaQuality = None,
                      u_frameDuration = None, u_frameRate = Some 25\<rparr>) = Inr m0 \<and>
     addFrames (+) [] m0 = Inr m0 \<and>
     complete (+) (undefined(0 := 0)) m0 = Inr (r, m') \<and>
     writtenHeader m' \<and> clusterFrameBuffer m' = [] \<and> clusterDuration m' = 0 \<and>
     addFrame (+) \<lparr>i_width = Some 1, i_height = Some 1,
               i_webp = [82, 73, 70, 70, 16, 0, 0, 0, 87, 69, 66, 80, 86, 80, 56, 32,
                         3, 0, 0, 0, 97, 98, 99, 0],
               i_alpha_webp = []\<rparr> NoAlpha None m' =
       Inr (m'\<lparr>clusterFrameBuffer :=
                  [\<lparr>f_frame = [97, 98, 99], f_alpha = None, f_duration = 40,
                    f_trackNumber = 1, f_timecode = 0\<rparr>],
                clusterDuration := 40\<rparr>)"
proof -
  let ?u = "\<lparr>u_quality = None, u_transparent = None, u_alphaQuality = None,
                      u_frameDuration = None, u_frameRate = Some (25 :: rat)\<rparr>"
  let ?img = "\<lparr>i_width = Some 1, i_height = Some 1,
               i_webp = [82, 73, 70, 70, 16, 0, 0, 0, 87, 69, 66, 80, 86, 80, 56, 32,
                         3, 0, 0, 0, 97, 98, 99, 0],
               i_alpha_webp = []\<rparr>"
  have "\<exists>m0 r m'. WebMWriter (Some ?u) = Inr m0 \<and>
      \<not> transparent (m_options m0) \<and> frameDuration (m_options m0) = Some 40 \<and>
      complete (+) (undefined(0 := 0)) m0 = Inr (r, m')"
    by (simp add: complete_eval cluster_eval muxer_eval stream_eval)
  then obtain m0 r m' where
    c: "WebMWriter (Some ?u) = Inr m0" and
    o: "\<not> transparent (m_options m0)" "frameDuration (m_options m0) = Some 40" and
    d: "complete (+) (undefined(0 := 0)) m0 = Inr (r, m')"
    by blast
  have s: "addFrames (+) [] m0 = Inr m0" by simp
  from calls_after_complete [OF c s d] have
    f: "writtenHeader m'" "clusterFrameBuffer m' = []" "clusterDuration m' = 0"
       "m_options m' = m_options m0" and
    a: "\<And>frame alpha overrideFrameDuration k.
       extractKeyframeFromWebP (i_webp frame) = Inr k \<and> \<not> transparent (m_options m') \<and>
       0 + chosen_duration overrideFrameDuration alpha m' < MAX_CLUSTER_DURATION_MSEC \<Longrightarrow>
       addFrame (+) frame alpha overrideFrameDuration m' =
         Inr (m'\<lparr>clusterFrameBuffer :=
                    [\<lparr>f_frame = k_frame k, f_alpha = None,
                      f_duration = chosen_duration overrideFrameDuration alpha m',
                      f_trackNumber = DEFAULT_TRACK_NUMBER, f_timecode = 0\<rparr>],
                  clusterDuration := 0 + chosen_duration overrideFrameDuration alpha m'\<rparr>)"
    by blast+
  have ch: "chosen_duration None NoAlpha m' = 40"
    using f(4) o by (simp add: chosen_duration_def)
  have "addFrame (+) ?img NoAlpha None m' =
       Inr (m'\<lparr>clusterFrameBuffer :=
                  [\<lparr>f_frame = [97, 98, 99], f_alpha = None, f_duration = 40,
                    f_trackNumber = 1, f_timecode = 0\<rparr>],
                clusterDuration := 40\<rparr>)"
    using a [of ?img "\<lparr>k_frame = [97, 98, 99], k_hasAlpha = False\<rparr>" None NoAlpha]
    by (simp add: extract_abc ch f(4) o MAX_CLUSTER_DURATION_MSEC_def DEFAULT_TRACK_NUMBER_def)
  with c s d f show ?thesis by blast
qed

section \<open>Overwrites and the content of the sink\<close>

























































end
